theory Spec2Isabelle
  imports Main
begin

section \<open>JavaScript values\<close>

text \<open>
  A JavaScript string is a sequence of UTF-16 code units; \<open>length\<close>, \<open>slice\<close> and
  \<open>startsWith\<close> count code units. A string is modelled as the list of its code units
  (natural numbers), and \<open>lit\<close> embeds an ASCII literal of the source. The ellipsis
  character U+2026 of the title summary is the single code unit 8230.
\<close>

type_synonym jsstring = "nat list"

definition lit :: "string \<Rightarrow> jsstring" where
  "lit s = map of_char s"

definition startsWith :: "jsstring \<Rightarrow> jsstring \<Rightarrow> bool" where
  "startsWith s p = (take (length p) s = p)"

text \<open>\<open>String.prototype.replace\<close> with a string pattern: the first occurrence only.\<close>

fun replace_first :: "jsstring \<Rightarrow> jsstring \<Rightarrow> jsstring \<Rightarrow> jsstring" where
  "replace_first pat rep [] = (if pat = [] then rep else [])"
| "replace_first pat rep (c # cs) =
     (if startsWith (c # cs) pat then rep @ drop (length pat) (c # cs)
      else c # replace_first pat rep cs)"

text \<open>
  Parsed JSON. Numbers occur in the code only through their truthiness, so an integer
  stands for a JSON number. An object is the list of its own properties (keys distinct).
\<close>

datatype json =
    JNull
  | JBool bool
  | JNum int
  | JStr jsstring
  | JArr "json list"
  | JObj "(jsstring \<times> json) list"

text \<open>
  Optional chaining \<open>x?.k\<close> for the property names the code reads (\<open>choices\<close>,
  \<open>message\<close>, \<open>content\<close>, \<open>messages\<close>, \<open>model\<close>, \<open>enableWeb\<close>): none of them is a
  built-in property of a string, number, boolean or array, so only an object can
  have them. \<open>None\<close> is \<open>undefined\<close>.
\<close>

fun opt_prop :: "json option \<Rightarrow> jsstring \<Rightarrow> json option" where
  "opt_prop (Some (JObj kvs)) k = map_of kvs k"
| "opt_prop _ k = None"

text \<open>\<open>x?.[0]\<close>: the first element of an array, the first code unit of a string, the
  property \<open>"0"\<close> of an object.\<close>

fun opt_index0 :: "json option \<Rightarrow> json option" where
  "opt_index0 (Some (JArr (x # xs))) = Some x"
| "opt_index0 (Some (JStr (c # cs))) = Some (JStr [c])"
| "opt_index0 (Some (JObj kvs)) = map_of kvs (lit ''0'')"
| "opt_index0 _ = None"

text \<open>\<open>x ?? d\<close>: the default replaces \<open>undefined\<close> and \<open>null\<close> only.\<close>

fun nullish :: "json option \<Rightarrow> json \<Rightarrow> json" where
  "nullish None d = d"
| "nullish (Some JNull) d = d"
| "nullish (Some v) d = v"

fun truthy :: "json option \<Rightarrow> bool" where
  "truthy None = False"
| "truthy (Some JNull) = False"
| "truthy (Some (JBool b)) = b"
| "truthy (Some (JNum n)) = (n \<noteq> 0)"
| "truthy (Some (JStr s)) = (s \<noteq> [])"
| "truthy (Some (JArr xs)) = True"
| "truthy (Some (JObj kvs)) = True"

text \<open>Truthiness of an optional string (an environment variable, a header).\<close>

fun present :: "jsstring option \<Rightarrow> bool" where
  "present None = False"
| "present (Some s) = (s \<noteq> [])"

section \<open>The completion gateway (supabase/functions/openrouter-chat/index.ts)\<close>

record request =
  req_method :: jsstring
  req_origin :: "jsstring option"
  req_authorization :: "jsstring option"
  req_json :: "json option"

text \<open>\<open>req_json\<close> is the result of \<open>req.json()\<close>; \<open>None\<close> when it rejects.\<close>

record environment =
  SUPABASE_URL :: "jsstring option"
  SUPABASE_SERVICE_ROLE_KEY :: "jsstring option"
  OPENROUTER_API_KEY :: "jsstring option"

datatype response_body = TextBody jsstring | JsonBody json

record http_response =
  res_status :: nat
  res_headers :: "(jsstring \<times> jsstring) list"
  res_body :: response_body

text \<open>What \<open>supabaseAdmin.auth.getUser\<close> resolves to.\<close>

record auth_result =
  auth_user :: "jsstring option"
  auth_error :: "jsstring option"

record fetch_request =
  fr_url :: jsstring
  fr_method :: jsstring
  fr_headers :: "(jsstring \<times> jsstring) list"
  fr_body :: json

text \<open>
  A response of the remote provider: \<open>up_ok\<close> is \<open>r.ok\<close>, \<open>up_json\<close> what \<open>r.json()\<close>
  resolves to (\<open>None\<close> when it rejects), \<open>up_text\<close> what \<open>r.text()\<close> resolves to.
  The provider is a transition function on a state of its own, so that its replies
  may depend on everything it has been sent before; \<open>fetch\<close> is taken to resolve.
\<close>

record upstream_response =
  up_ok :: bool
  up_json :: "json option"
  up_text :: jsstring

type_synonym 'w fetch = "'w \<Rightarrow> fetch_request \<Rightarrow> upstream_response \<times> 'w"

datatype exn = TypeError | SyntaxError

definition corsHeaders :: "jsstring option \<Rightarrow> (jsstring \<times> jsstring) list" where
  "corsHeaders origin =
     [(lit ''Access-Control-Allow-Origin'', (if present origin then the origin else lit ''*'')),
      (lit ''Access-Control-Allow-Headers'', lit ''authorization, x-client-info, apikey, content-type''),
      (lit ''Access-Control-Allow-Methods'', lit ''POST, OPTIONS'')]"

definition json_response :: "nat \<Rightarrow> json \<Rightarrow> jsstring option \<Rightarrow> http_response" where
  "json_response st b origin =
     \<lparr>res_status = st,
      res_headers = (lit ''Content-Type'', lit ''application/json'') # corsHeaders origin,
      res_body = JsonBody b\<rparr>"

definition error_body :: "string \<Rightarrow> json" where
  "error_body msg = JObj [(lit ''error'', JStr (lit msg))]"

definition upstream_headers :: "jsstring \<Rightarrow> (jsstring \<times> jsstring) list" where
  "upstream_headers key =
     [(lit ''Authorization'', lit ''Bearer '' @ key),
      (lit ''Content-Type'', lit ''application/json''),
      (lit ''HTTP-Referer'', lit ''https://example.com''),
      (lit ''X-Title'', lit ''August Chat'')]"

text \<open>The three payload shapes of lines 83 to 90.\<close>

definition native_flag_shape :: "json \<Rightarrow> json \<Rightarrow> json" where
  "native_flag_shape model messages =
     JObj [(lit ''model'', model), (lit ''messages'', messages), (lit ''stream'', JBool False),
           (lit ''web_search'', JObj [(lit ''enable'', JBool True)])]"

definition generic_tool_shape :: "json \<Rightarrow> json \<Rightarrow> json" where
  "generic_tool_shape model messages =
     JObj [(lit ''model'', model), (lit ''messages'', messages), (lit ''stream'', JBool False),
           (lit ''tools'', JArr [JObj [(lit ''type'', JStr (lit ''web_search''))]])]"

definition no_tools_shape :: "json \<Rightarrow> json \<Rightarrow> json" where
  "no_tools_shape model messages =
     JObj [(lit ''model'', model), (lit ''messages'', messages), (lit ''stream'', JBool False)]"

text \<open>
  Lines 80 to 90. \<open>model.startsWith\<close> is evaluated only when \<open>enableWeb\<close> holds, and
  throws a TypeError when \<open>model\<close> is a truthy value that is not a string.
\<close>

definition attempts :: "json \<Rightarrow> json \<Rightarrow> bool \<Rightarrow> exn + json list" where
  "attempts model messages enableWeb =
     (if enableWeb then
        (case model of
           JStr m \<Rightarrow>
             if startsWith m (lit ''google/'')
             then Inr ([native_flag_shape model messages, generic_tool_shape model messages]
                       @ [no_tools_shape model messages])
             else Inr ([generic_tool_shape model messages] @ [no_tools_shape model messages])
         | _ \<Rightarrow> Inl TypeError)
      else Inr [no_tools_shape model messages])"

definition chat_request :: "jsstring \<Rightarrow> json \<Rightarrow> fetch_request" where
  "chat_request key payload =
     \<lparr>fr_url = lit ''https://openrouter.ai/api/v1/chat/completions'',
      fr_method = lit ''POST'',
      fr_headers = upstream_headers key,
      fr_body = payload\<rparr>"

text \<open>Lines 104 to 108: the diagnostic detail read from a failed response.\<close>

definition detail_of :: "upstream_response \<Rightarrow> json" where
  "detail_of r = (case up_json r of Some j \<Rightarrow> j | None \<Rightarrow> JStr (up_text r))"

text \<open>
  The loop of lines 92 to 109. It returns \<open>resp\<close>, \<open>lastDetail\<close>, the requests it
  issued with the reply to each, in order, and the provider's state.
\<close>

fun try_attempts ::
  "'w fetch \<Rightarrow> jsstring \<Rightarrow> 'w \<Rightarrow> json list \<Rightarrow> json \<Rightarrow>
     upstream_response option \<times> json \<times> (fetch_request \<times> upstream_response) list \<times> 'w" where
  "try_attempts fetch key w [] lastDetail = (None, lastDetail, [], w)"
| "try_attempts fetch key w (payload # rest) lastDetail =
     (case fetch w (chat_request key payload) of
        (r, w') \<Rightarrow>
          if up_ok r then (Some r, lastDetail, [(chat_request key payload, r)], w')
          else (case try_attempts fetch key w' rest (detail_of r) of
                  (resp, d, issued, w'') \<Rightarrow> (resp, d, (chat_request key payload, r) # issued, w'')))"

text \<open>Lines 120 to 124: the reply to the caller built from the successful response.\<close>

definition completion_content :: "json \<Rightarrow> json" where
  "completion_content data =
     nullish (opt_prop (opt_prop (opt_index0 (opt_prop (Some data) (lit ''choices'')))
                          (lit ''message'')) (lit ''content''))
             (JStr [])"

definition success_reply :: "jsstring option \<Rightarrow> upstream_response \<Rightarrow> exn + http_response" where
  "success_reply origin resp =
     (case up_json resp of
        None \<Rightarrow> Inl SyntaxError
      | Some data \<Rightarrow> Inr (json_response 200 (JObj [(lit ''content'', completion_content data)]) origin))"

definition failure_reply :: "jsstring option \<Rightarrow> json \<Rightarrow> http_response" where
  "failure_reply origin detail =
     json_response 500 (JObj [(lit ''error'', JStr (lit ''OpenRouter error'')), (lit ''detail'', detail)]) origin"

text \<open>Lines 72 to 124: negotiation with the provider, after validation.\<close>

definition negotiate ::
  "'w fetch \<Rightarrow> jsstring \<Rightarrow> 'w \<Rightarrow> jsstring option \<Rightarrow> json \<Rightarrow> json \<Rightarrow> bool \<Rightarrow>
     (exn + http_response) \<times> (fetch_request \<times> upstream_response) list \<times> 'w" where
  "negotiate fetch key w origin model messages enableWeb =
     (case attempts model messages enableWeb of
        Inl e \<Rightarrow> (Inl e, [], w)
      | Inr payloads \<Rightarrow>
          (case try_attempts fetch key w payloads JNull of
             (Some resp, lastDetail, issued, w') \<Rightarrow> (success_reply origin resp, issued, w')
           | (None, lastDetail, issued, w') \<Rightarrow> (Inr (failure_reply origin lastDetail), issued, w')))"

text \<open>
  The request handler, lines 17 to 125. \<open>getUser\<close> is the identity provider's
  verification call, given the project URL, the service key and the caller's token.
\<close>

definition handler ::
  "(jsstring \<Rightarrow> jsstring \<Rightarrow> jsstring \<Rightarrow> auth_result) \<Rightarrow> 'w fetch \<Rightarrow> environment \<Rightarrow> 'w \<Rightarrow> request \<Rightarrow>
     (exn + http_response) \<times> (fetch_request \<times> upstream_response) list \<times> 'w" where
  "handler getUser fetch env w req =
     (let origin = req_origin req in
      if req_method req = lit ''OPTIONS''
      then (Inr \<lparr>res_status = 200, res_headers = corsHeaders origin, res_body = TextBody (lit ''ok'')\<rparr>, [], w)
      else
        let accessToken = map_option (replace_first (lit ''Bearer '') []) (req_authorization req) in
        if \<not> present accessToken
        then (Inr (json_response 401 (error_body ''Missing Authorization header'') origin), [], w)
        else if \<not> present (SUPABASE_URL env) \<or> \<not> present (SUPABASE_SERVICE_ROLE_KEY env)
                \<or> \<not> present (OPENROUTER_API_KEY env)
        then (Inr (json_response 500 (error_body ''Missing server configuration'') origin), [], w)
        else
          let auth = getUser (the (SUPABASE_URL env)) (the (SUPABASE_SERVICE_ROLE_KEY env)) (the accessToken) in
          if auth_error auth \<noteq> None \<or> auth_user auth = None
          then (Inr (json_response 401 (error_body ''Unauthorized'') origin), [], w)
          else
            (case req_json req of
               None \<Rightarrow> (Inr (json_response 400 (error_body ''Invalid JSON body'') origin), [], w)
             | Some JNull \<Rightarrow> (Inl TypeError, [], w)
             | Some body \<Rightarrow>
                 let messages = nullish (opt_prop (Some body) (lit ''messages'')) (JArr []);
                     model = (if truthy (opt_prop (Some body) (lit ''model''))
                              then the (opt_prop (Some body) (lit ''model''))
                              else JStr (lit ''openai/gpt-oss-20b:free''));
                     enableWeb = truthy (opt_prop (Some body) (lit ''enableWeb''))
                 in (case messages of
                       JArr (m # ms) \<Rightarrow>
                         negotiate fetch (the (OPENROUTER_API_KEY env)) w origin model messages enableWeb
                     | _ \<Rightarrow> (Inr (json_response 400 (error_body ''messages must be a non-empty array'') origin), [], w))))"

text \<open>
  The replies the provider gives when the payloads are sent one after the other, each
  to the state the previous one left: the yardstick for the loop, which stops early.
  \<open>failed_prefix\<close> counts the replies before the first successful one.
\<close>

fun replies :: "'w fetch \<Rightarrow> jsstring \<Rightarrow> 'w \<Rightarrow> json list \<Rightarrow> upstream_response list" where
  "replies fetch key w [] = []"
| "replies fetch key w (p # ps) =
     (case fetch w (chat_request key p) of (r, w') \<Rightarrow> r # replies fetch key w' ps)"

definition failed_prefix :: "upstream_response list \<Rightarrow> nat" where
  "failed_prefix rs = length (takeWhile (\<lambda>r. \<not> up_ok r) rs)"

text \<open>A provider for the examples: it accepts exactly the payloads that declare tools,
  whatever the headers are, and counts the requests it has seen.\<close>

definition demo_fetch :: "nat fetch" where
  "demo_fetch w rq =
     (\<lparr>up_ok = (opt_prop (Some (fr_body rq)) (lit ''tools'') \<noteq> None),
       up_json = (if opt_prop (Some (fr_body rq)) (lit ''tools'') \<noteq> None
                  then Some (JObj [(lit ''choices'',
                         JArr [JObj [(lit ''message'', JObj [(lit ''content'', JStr (lit ''Hi''))])]])])
                  else None),
       up_text = lit ''unsupported''\<rparr>, Suc w)"

definition demo_getUser :: "jsstring \<Rightarrow> jsstring \<Rightarrow> jsstring \<Rightarrow> auth_result" where
  "demo_getUser url service_key token =
     (if token = lit ''token''
      then \<lparr>auth_user = Some (lit ''user-1''), auth_error = None\<rparr>
      else \<lparr>auth_user = None, auth_error = Some (lit ''invalid JWT'')\<rparr>)"

definition demo_env :: "jsstring \<Rightarrow> environment" where
  "demo_env key =
     \<lparr>SUPABASE_URL = Some (lit ''https://db.example''),
      SUPABASE_SERVICE_ROLE_KEY = Some (lit ''service-role''),
      OPENROUTER_API_KEY = Some key\<rparr>"

definition demo_request :: "json \<Rightarrow> request" where
  "demo_request b =
     \<lparr>req_method = lit ''POST'', req_origin = None,
      req_authorization = Some (lit ''Bearer token''), req_json = Some b\<rparr>"

section \<open>Strings of the client (src/components/AuthGate.tsx)\<close>

text \<open>\<open>String.prototype.trim\<close> removes the white space and line terminator code units of
  ECMAScript from both ends.\<close>

definition is_space :: "nat \<Rightarrow> bool" where
  "is_space c = (c \<in> {9, 10, 11, 12, 13, 32, 160, 5760, 8232, 8233, 8239, 8287, 12288, 65279}
                 \<or> (8192 \<le> c \<and> c \<le> 8202))"

definition trim :: "jsstring \<Rightarrow> jsstring" where
  "trim s = rev (dropWhile is_space (rev (dropWhile is_space s)))"

text \<open>\<open>Array.prototype.join\<close>.\<close>

fun join :: "jsstring \<Rightarrow> jsstring list \<Rightarrow> jsstring" where
  "join sep [] = []"
| "join sep [x] = x"
| "join sep (x # y # ys) = x @ sep @ join sep (y # ys)"

text \<open>A non-negative integer in a template literal: its decimal digits.\<close>

fun show_nat :: "nat \<Rightarrow> jsstring" where
  "show_nat n = (if n < 10 then [48 + n] else show_nat (n div 10) @ [48 + n mod 10])"

declare show_nat.simps [simp del]

definition to_lower :: "nat \<Rightarrow> nat" where
  "to_lower c = (if 65 \<le> c \<and> c \<le> 90 then c + 32 else c)"

text \<open>The test \<open>/\.(ext)$/i\<close> on a file name, for one extension given in lower case.\<close>

definition has_extension :: "jsstring \<Rightarrow> string \<Rightarrow> bool" where
  "has_extension name ext =
     (length ext + 1 \<le> length name
      \<and> map to_lower (drop (length name - (length ext + 1)) name) = lit ''.'' @ lit ext)"

definition newline :: jsstring where
  "newline = [10]"

definition ellipsis :: jsstring where
  "ellipsis = [8230]"

section \<open>Attachments: handleFiles (lines 545 to 589)\<close>

record attachment =
  a_id :: jsstring
  a_name :: jsstring
  a_type :: jsstring
  a_size :: nat
  a_dataUrl :: "jsstring option"
  a_textContent :: "jsstring option"

text \<open>
  A selected file, with what the readers and extractors give for it: \<open>f_dataURL\<close> and
  \<open>f_text\<close> are the results of \<open>readFileAsDataURL\<close> and \<open>readFileAsText\<close> (\<open>None\<close>
  when the promise rejects); \<open>f_ocr\<close>, \<open>f_pdf\<close> and \<open>f_docx\<close> the results of
  \<open>extractImageOcr\<close>, \<open>extractPdfText\<close> and \<open>extractDocxText\<close>, which catch their own
  errors and return the empty string; \<open>f_uid\<close> the random suffix of the identifier.
\<close>

record picked_file =
  f_name :: jsstring
  f_type :: jsstring
  f_size :: nat
  f_dataURL :: "jsstring option"
  f_ocr :: jsstring
  f_text :: "jsstring option"
  f_pdf :: jsstring
  f_docx :: jsstring
  f_uid :: jsstring

definition maxCount :: nat where
  "maxCount = 5"

definition maxBytes :: nat where
  "maxBytes = 10 * 1024 * 1024"

definition is_text_type :: "jsstring \<Rightarrow> bool" where
  "is_text_type t =
     (startsWith t (lit ''text/'') \<or> startsWith t (lit ''application/json'')
      \<or> startsWith t (lit ''application/xml'') \<or> startsWith t (lit ''application/csv''))"

text \<open>Lines 559 to 585: the attachment made from one accepted file.\<close>

definition to_attachment :: "picked_file \<Rightarrow> attachment" where
  "to_attachment f =
     (let item = \<lparr>a_id = f_name f @ lit ''-'' @ show_nat (f_size f) @ lit ''-'' @ f_uid f,
                  a_name = f_name f,
                  a_type = (if f_type f \<noteq> [] then f_type f else lit ''application/octet-stream''),
                  a_size = f_size f,
                  a_dataUrl = None,
                  a_textContent = None\<rparr>
      in if startsWith (a_type item) (lit ''image/'') then
           (case f_dataURL f of
              None \<Rightarrow> item
            | Some url \<Rightarrow>
                if f_ocr f \<noteq> [] then item\<lparr>a_dataUrl := Some url, a_textContent := Some (f_ocr f)\<rparr>
                else item\<lparr>a_dataUrl := Some url\<rparr>)
         else if is_text_type (a_type item) \<or> has_extension (a_name item) ''txt''
                 \<or> has_extension (a_name item) ''md'' \<or> has_extension (a_name item) ''json''
                 \<or> has_extension (a_name item) ''csv'' then
           (case f_text f of
              None \<Rightarrow> item
            | Some t \<Rightarrow> item\<lparr>a_textContent := Some t\<rparr>)
         else if a_type item = lit ''application/pdf'' \<or> has_extension (a_name item) ''pdf'' then
           item\<lparr>a_textContent := Some (f_pdf f)\<rparr>
         else if a_type item = lit ''application/vnd.openxmlformats-officedocument.wordprocessingml.document''
                 \<or> has_extension (a_name item) ''docx'' then
           item\<lparr>a_textContent := Some (f_docx f)\<rparr>
         else item\<lparr>a_textContent := Some []\<rparr>)"

text \<open>Lines 548 and 549.\<close>

definition remaining :: "attachment list \<Rightarrow> nat" where
  "remaining attachments = nat (max 0 (int maxCount - int (length attachments)))"

definition accepted :: "attachment list \<Rightarrow> picked_file list \<Rightarrow> picked_file list" where
  "accepted attachments files = take (remaining attachments) files"

definition limit_notice :: jsstring where
  "limit_notice = lit ''You can attach up to '' @ show_nat maxCount @ lit '' files per message.''"

definition skipped_notice :: "picked_file \<Rightarrow> jsstring" where
  "skipped_notice f = lit ''File \"'' @ f_name f @ lit ''\" exceeds 10MB and was skipped.''"

text \<open>The loop of lines 554 to 587: the notices raised and the items pushed to \<open>next\<close>.\<close>

fun process_accepted :: "picked_file list \<Rightarrow> jsstring list \<times> attachment list" where
  "process_accepted [] = ([], [])"
| "process_accepted (f # fs) =
     (case process_accepted fs of
        (notices, items) \<Rightarrow>
          if f_size f > maxBytes then (skipped_notice f # notices, items)
          else (notices, to_attachment f # items))"

text \<open>
  \<open>handleFiles\<close>: the notices shown, in order, and the attachments of the turn after
  the update \<open>setAttachments((prev) => [...prev, ...next])\<close>, when no other update of
  the attachments comes in between.
\<close>

definition handleFiles :: "attachment list \<Rightarrow> picked_file list \<Rightarrow> jsstring list \<times> attachment list" where
  "handleFiles attachments files =
     (case process_accepted (accepted attachments files) of
        (notices, items) \<Rightarrow>
          ((if length files > remaining attachments then [limit_notice] else []) @ notices,
           attachments @ items))"

section \<open>A chat turn: handleSend (lines 300 to 462)\<close>

datatype role = System | User | Assistant

record message =
  m_id :: jsstring
  m_conversation_id :: jsstring
  m_role :: role
  m_content :: jsstring
  m_created_at :: jsstring

record conversation =
  c_id :: jsstring
  c_user_id :: "jsstring option"
  c_title :: "jsstring option"
  c_created_at :: jsstring
  c_updated_at :: jsstring

text \<open>
  The state of the component. \<open>handleSend\<close> is a closure of one render: what it reads
  (\<open>activeId\<close>, \<open>conversations\<close>, \<open>messages\<close>, \<open>attachments\<close>, ...) are the values of
  that render, while its updates go to the current state. One send is followed from its
  start to its end; the updates that other handlers and effects of the component could
  make while it awaits are left out.
\<close>

record client =
  userId :: "jsstring option"
  conversations :: "conversation list"
  activeId :: "jsstring option"
  messages :: "message list"
  input :: jsstring
  sending :: bool
  pendingQuery :: "jsstring option"
  attachments :: "attachment list"
  selectedModel :: jsstring
  enableWeb :: bool

text \<open>An awaited call either rejects (the \<open>await\<close> throws) or resolves with a value.\<close>

datatype 'a awaited = Rejected | Resolved 'a

text \<open>
  What the collaborators answer during one send, one field for each call site:
  the \<open>data\<close> (and the id in it) and whether \<open>error\<close> is set for the conversation
  insert; \<open>data\<close> and whether \<open>error\<close> is set for the first insert of the user message;
  \<open>data\<close> for the fallback insert; the title update; the access token of the session;
  \<open>response?.content\<close> and whether \<open>error\<close> is set for the gateway; \<open>data\<close> for the
  insert of the assistant message; and the readings of the clock.
\<close>

record answers =
  conversation_insert :: "(jsstring option \<times> bool) awaited"
  user_insert :: "(message option \<times> bool) awaited"
  fallback_insert :: "message option awaited"
  title_update :: "unit awaited"
  get_session :: "jsstring option awaited"
  invoke :: "(jsstring option \<times> bool) awaited"
  assistant_insert :: "message option awaited"
  created_now :: jsstring
  updated_now :: jsstring
  placeholder_now :: jsstring
  date_now :: nat

record insert_payload =
  ip_conversation_id :: jsstring
  ip_role :: role
  ip_content :: jsstring
  ip_attachments :: "(jsstring \<times> jsstring \<times> nat) list option"

datatype llm_content = TextContent jsstring | ImageParts "jsstring list"

record llm_message =
  l_role :: role
  l_content :: llm_content

record invoke_body =
  ib_messages :: "llm_message list"
  ib_model :: jsstring
  ib_enableWeb :: bool

text \<open>What the handler does to the outside, in order. \<open>SetMessages\<close> carries the message
  list that a \<open>setMessages\<close> update produces.\<close>

datatype effect =
    InsertConversation "jsstring option"
  | InsertMessage insert_payload
  | UpdateTitle jsstring jsstring
  | GetSession
  | Invoke invoke_body "jsstring option"
  | SetMessages "message list"
  | ConsoleError
  | Alert jsstring

record run =
  cur :: client
  trace :: "effect list"

definition emit :: "effect list \<Rightarrow> run \<Rightarrow> run" where
  "emit es r = r\<lparr>trace := trace r @ es\<rparr>"

text \<open>\<open>setMessages(f)\<close>: the update is applied to the current list.\<close>

definition setMessages :: "(message list \<Rightarrow> message list) \<Rightarrow> run \<Rightarrow> run" where
  "setMessages f r =
     \<lparr>cur = (cur r)\<lparr>messages := f (messages (cur r))\<rparr>,
      trace = trace r @ [SetMessages (f (messages (cur r)))]\<rparr>"

text \<open>Lines 252 to 255.\<close>

definition activeConversation :: "client \<Rightarrow> conversation option" where
  "activeConversation s = find (\<lambda>c. Some (c_id c) = activeId s) (conversations s)"

text \<open>Lines 300 to 315; \<open>None\<close> when it throws.\<close>

definition ensureConversation :: "answers \<Rightarrow> client \<Rightarrow> run \<Rightarrow> jsstring option \<times> run" where
  "ensureConversation ans s r =
     (if present (activeId s) then (activeId s, r)
      else
        (case conversation_insert ans of
           Rejected \<Rightarrow> (None, emit [InsertConversation (userId s)] r)
         | Resolved (data, error) \<Rightarrow>
             if error \<or> data = None then (None, emit [InsertConversation (userId s)] r)
             else
               (data,
                \<lparr>cur = (cur r)\<lparr>conversations :=
                           \<lparr>c_id = the data, c_user_id = userId s, c_title = None,
                            c_created_at = created_now ans, c_updated_at = updated_now ans\<rparr>
                           # conversations (cur r),
                         activeId := data\<rparr>,
                 trace = trace r @ [InsertConversation (userId s)]\<rparr>)))"

text \<open>Line 318.\<close>

definition send_text :: "client \<Rightarrow> jsstring" where
  "send_text s = trim (case pendingQuery s of Some q \<Rightarrow> q | None \<Rightarrow> input s)"

text \<open>Line 325.\<close>

definition attached_files :: "attachment list \<Rightarrow> jsstring" where
  "attached_files atts = lit ''Attached files: '' @ join (lit '', '') (map a_name atts)"

definition userMessageContent :: "jsstring \<Rightarrow> attachment list \<Rightarrow> jsstring" where
  "userMessageContent t atts =
     (if t \<noteq> [] then t else if atts \<noteq> [] then attached_files atts else [])"

text \<open>Lines 328 to 335.\<close>

definition insertPayload :: "jsstring \<Rightarrow> jsstring \<Rightarrow> attachment list \<Rightarrow> insert_payload" where
  "insertPayload conversationId content atts =
     \<lparr>ip_conversation_id = conversationId, ip_role = User, ip_content = content,
      ip_attachments = (if atts \<noteq> [] then Some (map (\<lambda>a. (a_name a, a_type a, a_size a)) atts)
                        else None)\<rparr>"

text \<open>Lines 336 to 363: the first insert, the fallback insert, and the append of the
  row obtained. The boolean is \<open>False\<close> when the block throws. What the first insert
  throws is caught at line 346 and kept in \<open>insertError\<close>, taken to be truthy.\<close>

definition insertUserMessage ::
  "answers \<Rightarrow> client \<Rightarrow> jsstring \<Rightarrow> jsstring \<Rightarrow> run \<Rightarrow> bool \<times> run" where
  "insertUserMessage ans s conversationId content r =
     (let r1 = emit [InsertMessage (insertPayload conversationId content (attachments s))] r;
          insertedUser = (case user_insert ans of Rejected \<Rightarrow> None | Resolved (data, error) \<Rightarrow> data);
          insertError = (case user_insert ans of Rejected \<Rightarrow> True | Resolved (data, error) \<Rightarrow> error)
      in if insertedUser = None \<and> insertError \<and> attachments s \<noteq> [] then
           (let fallbackContent = (if content \<noteq> [] then content else attached_files (attachments s));
                r2 = emit [InsertMessage \<lparr>ip_conversation_id = conversationId, ip_role = User,
                                          ip_content = fallbackContent, ip_attachments = None\<rparr>] r1
            in case fallback_insert ans of
                 Rejected \<Rightarrow> (False, r2)
               | Resolved None \<Rightarrow> (True, r2)
               | Resolved (Some row) \<Rightarrow> (True, setMessages (\<lambda>prev. prev @ [row]) r2))
         else
           (case insertedUser of
              None \<Rightarrow> (True, r1)
            | Some row \<Rightarrow> (True, setMessages (\<lambda>prev. prev @ [row]) r1)))"

text \<open>Line 367.\<close>

definition summarized :: "jsstring \<Rightarrow> jsstring" where
  "summarized content = (if length content > 60 then take 57 content @ ellipsis else content)"

text \<open>Lines 365 to 372.\<close>

definition titleConversation ::
  "answers \<Rightarrow> client \<Rightarrow> jsstring \<Rightarrow> jsstring \<Rightarrow> run \<Rightarrow> bool \<times> run" where
  "titleConversation ans s conversationId content r =
     (if \<not> present (case activeConversation s of None \<Rightarrow> None | Some c \<Rightarrow> c_title c) then
        (case title_update ans of
           Rejected \<Rightarrow> (False, emit [UpdateTitle conversationId (summarized content)] r)
         | Resolved u \<Rightarrow> (True, emit [UpdateTitle conversationId (summarized content)] r))
      else (True, r))"

text \<open>The two template literals of lines 385 and 389.\<close>

definition text_section :: "attachment \<Rightarrow> jsstring" where
  "text_section a =
     newline @ newline @ lit ''--- File: '' @ a_name a @ lit '' ---'' @ newline
     @ take 20000 (the (a_textContent a))"

definition no_text_section :: "attachment \<Rightarrow> jsstring" where
  "no_text_section a =
     newline @ newline @ lit ''--- File: '' @ a_name a @ lit '' ---'' @ newline
     @ lit ''[No extractable text found. Type: '' @ a_type a @ lit '', ''
     @ show_nat (a_size a) @ lit '' bytes]''"

text \<open>The loop of lines 383 to 391 over the attachments: the combined text and the
  images collected so far.\<close>

fun combine ::
  "attachment list \<Rightarrow> jsstring \<Rightarrow> (jsstring \<times> jsstring) list \<Rightarrow> jsstring \<times> (jsstring \<times> jsstring) list" where
  "combine [] combined images = (combined, images)"
| "combine (a # as) combined images =
     (if present (a_textContent a) then combine as (combined @ text_section a) images
      else if startsWith (a_type a) (lit ''image/'') \<and> present (a_dataUrl a) then
        combine as combined (images @ [(the (a_dataUrl a), a_name a)])
      else combine as (combined @ no_text_section a) images)"

text \<open>Lines 375 to 401.\<close>

definition messagesForLLM :: "client \<Rightarrow> jsstring \<Rightarrow> llm_message list" where
  "messagesForLLM s content =
     map (\<lambda>m. \<lparr>l_role = m_role m, l_content = TextContent (m_content m)\<rparr>) (messages s)
     @ (if attachments s \<noteq> [] then
          (case combine (attachments s)
                  ((if content \<noteq> [] then content else lit ''(no text, files attached)'')
                   @ newline @ newline @ lit ''[Attached files provided as inline text below]'') [] of
             (combined, images) \<Rightarrow>
               [\<lparr>l_role = User, l_content = TextContent combined\<rparr>]
               @ (if images \<noteq> [] then [\<lparr>l_role = User, l_content = ImageParts (map fst images)\<rparr>] else []))
        else [\<lparr>l_role = User, l_content = TextContent content\<rparr>])"

text \<open>Lines 403 to 411: the session, the call of the gateway, and \<open>assistantText\<close>;
  \<open>None\<close> when the block throws.\<close>

definition callGateway :: "answers \<Rightarrow> client \<Rightarrow> llm_message list \<Rightarrow> run \<Rightarrow> jsstring option \<times> run" where
  "callGateway ans s msgs r =
     (case get_session ans of
        Rejected \<Rightarrow> (None, emit [GetSession] r)
      | Resolved accessToken \<Rightarrow>
          (let r1 = emit [GetSession,
                          Invoke \<lparr>ib_messages = msgs, ib_model = selectedModel s, ib_enableWeb = enableWeb s\<rparr>
                                 (if present accessToken then Some (lit ''Bearer '' @ the accessToken) else None)] r
           in case invoke ans of
                Rejected \<Rightarrow> (None, r1)
              | Resolved (content, error) \<Rightarrow>
                  if error then (None, r1)
                  else (Some (case content of None \<Rightarrow> [] | Some c \<Rightarrow> c), r1)))"

text \<open>
  The timer of lines 427 to 442: the successive values of \<open>i\<close>, one for each tick, from
  the value \<open>i\<close> before the tick; \<open>len\<close> is the source's \<open>total\<close>. \<open>step\<close> is at least 1, so the ticks come to an end.
\<close>

function reveal :: "nat \<Rightarrow> nat \<Rightarrow> nat list" where
  "reveal len i =
     (let step = max 1 (len div 120);
          i' = min len (i + step)
      in if i' \<ge> len then [i'] else i' # reveal len i')"
  by pat_completeness auto
termination
  by (relation "measure (\<lambda>(len, i). len - i)") (auto simp add: Let_def min_def split: if_splits)

declare reveal.simps [simp del]

text \<open>One tick (lines 432 to 436): the placeholder shows the first \<open>i\<close> code units.\<close>

definition reveal_in :: "jsstring \<Rightarrow> jsstring \<Rightarrow> nat \<Rightarrow> message \<Rightarrow> message" where
  "reveal_in tempId assistantText i m =
     (if m_id m = tempId then m\<lparr>m_content := take i assistantText\<rparr> else m)"

definition show_partial :: "jsstring \<Rightarrow> jsstring \<Rightarrow> nat \<Rightarrow> run \<Rightarrow> run" where
  "show_partial tempId assistantText i r = setMessages (map (reveal_in tempId assistantText i)) r"

text \<open>Lines 413 to 453.\<close>

definition showAssistant :: "answers \<Rightarrow> jsstring \<Rightarrow> jsstring \<Rightarrow> run \<Rightarrow> bool \<times> run" where
  "showAssistant ans conversationId assistantText r =
     (if assistantText \<noteq> [] then
        (let tempId = lit ''temp-'' @ show_nat (date_now ans);
             r1 = setMessages (\<lambda>prev. prev @ [\<lparr>m_id = tempId, m_conversation_id = conversationId,
                                                m_role = Assistant, m_content = [],
                                                m_created_at = placeholder_now ans\<rparr>]) r;
             r2 = fold (show_partial tempId assistantText) (reveal (length assistantText) 0) r1;
             r3 = emit [InsertMessage \<lparr>ip_conversation_id = conversationId, ip_role = Assistant,
                                       ip_content = assistantText, ip_attachments = None\<rparr>] r2
         in case assistant_insert ans of
              Rejected \<Rightarrow> (False, r3)
            | Resolved None \<Rightarrow> (True, r3)
            | Resolved (Some finalMsg) \<Rightarrow>
                (True, setMessages (map (\<lambda>m. if m_id m = tempId then finalMsg else m)) r3))
      else (True, r))"

text \<open>The \<open>try\<close> block, lines 322 to 453; \<open>False\<close> when it throws.\<close>

definition send_body :: "answers \<Rightarrow> client \<Rightarrow> jsstring \<Rightarrow> run \<Rightarrow> bool \<times> run" where
  "send_body ans s t r =
     (case ensureConversation ans s r of
        (None, r1) \<Rightarrow> (False, r1)
      | (Some conversationId, r1) \<Rightarrow>
          (let content = userMessageContent t (attachments s);
               r2 = r1\<lparr>cur := (cur r1)\<lparr>input := [],
                                        pendingQuery := (if present (pendingQuery s) then None
                                                         else pendingQuery (cur r1))\<rparr>\<rparr>
           in case insertUserMessage ans s conversationId content r2 of
                (False, r3) \<Rightarrow> (False, r3)
              | (True, r3) \<Rightarrow>
                  (case titleConversation ans s conversationId content r3 of
                     (False, r4) \<Rightarrow> (False, r4)
                   | (True, r4) \<Rightarrow>
                       (case callGateway ans s (messagesForLLM s content) r4 of
                          (None, r5) \<Rightarrow> (False, r5)
                        | (Some assistantText, r5) \<Rightarrow> showAssistant ans conversationId assistantText r5))))"

text \<open>The guard of line 319.\<close>

definition ignored :: "client \<Rightarrow> bool" where
  "ignored s = ((send_text s = [] \<and> attachments s = []) \<or> sending s)"

text \<open>\<open>handleSend\<close>, lines 317 to 462, with its \<open>catch\<close> and \<open>finally\<close>.\<close>

definition handleSend :: "answers \<Rightarrow> client \<Rightarrow> run" where
  "handleSend ans s =
     (if ignored s then \<lparr>cur = s, trace = []\<rparr>
      else
        (case send_body ans s (send_text s) \<lparr>cur = s\<lparr>sending := True\<rparr>, trace = []\<rparr> of
           (completed, r) \<Rightarrow>
             (let r' = (if completed then r
                        else emit [ConsoleError, Alert (lit ''Failed to send message'')] r)
              in r'\<lparr>cur := (cur r')\<lparr>sending := False, attachments := []\<rparr>\<rparr>)))"

section \<open>Observations on a trace\<close>

fun inserts_of :: "role \<Rightarrow> effect list \<Rightarrow> insert_payload list" where
  "inserts_of ro [] = []"
| "inserts_of ro (InsertMessage p # es) = (if ip_role p = ro then p # inserts_of ro es else inserts_of ro es)"
| "inserts_of ro (e # es) = inserts_of ro es"

fun title_updates :: "effect list \<Rightarrow> (jsstring \<times> jsstring) list" where
  "title_updates [] = []"
| "title_updates (UpdateTitle c t # es) = (c, t) # title_updates es"
| "title_updates (e # es) = title_updates es"

fun invocations :: "effect list \<Rightarrow> (invoke_body \<times> jsstring option) list" where
  "invocations [] = []"
| "invocations (Invoke b h # es) = (b, h) # invocations es"
| "invocations (e # es) = invocations es"

fun alerts :: "effect list \<Rightarrow> jsstring list" where
  "alerts [] = []"
| "alerts (Alert a # es) = a # alerts es"
| "alerts (e # es) = alerts es"

fun views :: "effect list \<Rightarrow> message list list" where
  "views [] = []"
| "views (SetMessages ms # es) = ms # views es"
| "views (e # es) = views es"

text \<open>
  Whether the first insert of the user message failed (it threw, or gave an error and
  no row), and the value of \<open>insertedUser\<close> at line 361.
\<close>

definition first_insert_failed :: "answers \<Rightarrow> bool" where
  "first_insert_failed ans =
     (case user_insert ans of Rejected \<Rightarrow> True | Resolved (data, error) \<Rightarrow> data = None \<and> error)"

definition insertedUser :: "answers \<Rightarrow> attachment list \<Rightarrow> message option" where
  "insertedUser ans atts =
     (if first_insert_failed ans \<and> atts \<noteq> []
      then (case fallback_insert ans of Rejected \<Rightarrow> None | Resolved data \<Rightarrow> data)
      else (case user_insert ans of Rejected \<Rightarrow> None | Resolved (data, error) \<Rightarrow> data))"

text \<open>
  The conversation id that \<open>ensureConversation\<close> returns (\<open>None\<close> when it throws), and
  the value of \<open>assistantText\<close> at line 411 (\<open>None\<close> when lines 404 to 410 throw).
\<close>

definition conversationId :: "answers \<Rightarrow> client \<Rightarrow> jsstring option" where
  "conversationId ans s =
     (if present (activeId s) then activeId s
      else (case conversation_insert ans of
              Rejected \<Rightarrow> None
            | Resolved (data, error) \<Rightarrow> if error then None else data))"

definition assistantText :: "answers \<Rightarrow> jsstring option" where
  "assistantText ans =
     (case get_session ans of
        Rejected \<Rightarrow> None
      | Resolved accessToken \<Rightarrow>
          (case invoke ans of
             Rejected \<Rightarrow> None
           | Resolved (content, error) \<Rightarrow>
               if error then None else Some (case content of None \<Rightarrow> [] | Some c \<Rightarrow> c)))"

text \<open>
  The title column of a conversation in the store after the updates of a trace, from
  \<open>update conversations set title = ... where id = ...\<close> on the table of
  \<open>supabase/migrations/0001_init.sql\<close>.
\<close>

fun stored_title :: "jsstring \<Rightarrow> jsstring option \<Rightarrow> effect list \<Rightarrow> jsstring option" where
  "stored_title c title [] = title"
| "stored_title c title (UpdateTitle c' t # es) = stored_title c (if c' = c then Some t else title) es"
| "stored_title c title (e # es) = stored_title c title es"

section \<open>A fresh session, for the examples\<close>

text \<open>
  No conversation is active; the user has typed \<open>Hello\<close>; the store creates the
  conversation \<open>c-1\<close> and returns the rows it inserts; the gateway answers \<open>Hi there\<close>.
\<close>

definition demo_client :: client where
  "demo_client =
     \<lparr>userId = Some (lit ''user-1''), conversations = [], activeId = None, messages = [],
      input = lit ''Hello'', sending = False, pendingQuery = None, attachments = [],
      selectedModel = lit ''openai/gpt-oss-20b:free'', enableWeb = False\<rparr>"

definition demo_user_row :: message where
  "demo_user_row =
     \<lparr>m_id = lit ''m-1'', m_conversation_id = lit ''c-1'', m_role = User,
      m_content = lit ''Hello'', m_created_at = lit ''09:00:01''\<rparr>"

definition demo_assistant_row :: message where
  "demo_assistant_row =
     \<lparr>m_id = lit ''m-2'', m_conversation_id = lit ''c-1'', m_role = Assistant,
      m_content = lit ''Hi there'', m_created_at = lit ''09:00:03''\<rparr>"

definition demo_answers :: answers where
  "demo_answers =
     \<lparr>conversation_insert = Resolved (Some (lit ''c-1''), False),
      user_insert = Resolved (Some demo_user_row, False),
      fallback_insert = Resolved None,
      title_update = Resolved (),
      get_session = Resolved (Some (lit ''token'')),
      invoke = Resolved (Some (lit ''Hi there''), False),
      assistant_insert = Resolved (Some demo_assistant_row),
      created_now = lit ''09:00:00'', updated_now = lit ''09:00:00'',
      placeholder_now = lit ''09:00:02'', date_now = 1700000000000\<rparr>"

text \<open>A text file of 50 bytes whose content is \<open>abc\<close>, and a photo on which text is recognised.\<close>

definition demo_note :: picked_file where
  "demo_note =
     \<lparr>f_name = lit ''note.txt'', f_type = lit ''text/plain'', f_size = 50, f_dataURL = None,
      f_ocr = [], f_text = Some (lit ''abc''), f_pdf = [], f_docx = [], f_uid = lit ''u1''\<rparr>"

definition demo_photo :: picked_file where
  "demo_photo =
     \<lparr>f_name = lit ''scan.png'', f_type = lit ''image/png'', f_size = 2048,
      f_dataURL = Some (lit ''data:image/png;base64,AAAA''),
      f_ocr = lit ''INVOICE'', f_text = None, f_pdf = [], f_docx = [], f_uid = lit ''u2''\<rparr>"

text \<open>The same session with the note attached and nothing typed, and the answers of a
  gateway that returns the empty string.\<close>

definition demo_files_client :: client where
  "demo_files_client = demo_client\<lparr>input := [], attachments := [to_attachment demo_note]\<rparr>"

definition demo_empty_answers :: answers where
  "demo_empty_answers = demo_answers\<lparr>invoke := Resolved (Some [], False)\<rparr>"

text \<open>A file of one byte more than 10 MiB, the photo without recognised text, and a
  client whose turn holds the attachment made from a file.\<close>

definition demo_big :: picked_file where
  "demo_big = demo_note\<lparr>f_name := lit ''big.bin'', f_size := 10 * 1024 * 1024 + 1\<rparr>"

definition demo_plain_photo :: picked_file where
  "demo_plain_photo = demo_photo\<lparr>f_ocr := []\<rparr>"

definition demo_with :: "picked_file \<Rightarrow> client" where
  "demo_with f = demo_client\<lparr>input := [], attachments := [to_attachment f]\<rparr>"

text \<open>The answers of a store that rejects the first insert of the user message.\<close>

definition demo_failed_answers :: answers where
  "demo_failed_answers = demo_answers\<lparr>user_insert := Resolved (None, True)\<rparr>"

section \<open>Lemmas on the model\<close>

subsection \<open>The negotiation loop\<close>

lemma length_replies [simp]: "length (replies fetch key w ps) = length ps"
  by (induction ps arbitrary: w) (auto split: prod.splits)

lemma try_attempts_char:
  "try_attempts fetch key w ps d = (resp, d', issued, w') \<Longrightarrow>
     issued = take (Suc (failed_prefix (replies fetch key w ps)))
                (zip (map (chat_request key) ps) (replies fetch key w ps)) \<and>
     resp = (if failed_prefix (replies fetch key w ps) < length ps
             then Some (replies fetch key w ps ! failed_prefix (replies fetch key w ps)) else None) \<and>
     d' = (if failed_prefix (replies fetch key w ps) = 0 then d
           else detail_of (replies fetch key w ps ! (failed_prefix (replies fetch key w ps) - 1)))"
proof (induction ps arbitrary: w d resp d' issued w')
  case Nil
  then show ?case by (simp add: failed_prefix_def)
next
  case (Cons p ps)
  obtain r w1 where f: "fetch w (chat_request key p) = (r, w1)" by (cases "fetch w (chat_request key p)")
  show ?case
  proof (cases "up_ok r")
    case True
    with Cons.prems f show ?thesis by (simp add: failed_prefix_def)
  next
    case False
    obtain resp2 d2 issued2 w2 where t: "try_attempts fetch key w1 ps (detail_of r) = (resp2, d2, issued2, w2)"
      by (cases "try_attempts fetch key w1 ps (detail_of r)") auto
    from Cons.IH[OF t] Cons.prems f False t show ?thesis
      by (auto simp add: failed_prefix_def nth_Cons split: nat.splits)
  qed
qed

lemma try_attempts_by_replies:
  assumes "replies f1 k1 w1 ps = replies f2 k2 w2 ps"
  shows "fst (try_attempts f1 k1 w1 ps d) = fst (try_attempts f2 k2 w2 ps d)
       \<and> fst (snd (try_attempts f1 k1 w1 ps d)) = fst (snd (try_attempts f2 k2 w2 ps d))"
proof -
  obtain r1 d1 i1 v1 where t1: "try_attempts f1 k1 w1 ps d = (r1, d1, i1, v1)"
    by (cases "try_attempts f1 k1 w1 ps d") auto
  obtain r2 d2 i2 v2 where t2: "try_attempts f2 k2 w2 ps d = (r2, d2, i2, v2)"
    by (cases "try_attempts f2 k2 w2 ps d") auto
  from try_attempts_char[OF t1] try_attempts_char[OF t2] assms t1 t2
  show ?thesis by simp
qed

lemma negotiate_by_replies:
  assumes "replies f1 k1 w1 ps = replies f2 k2 w2 ps" and "attempts model msgs ew = Inr ps"
  shows "fst (negotiate f1 k1 w1 origin model msgs ew) = fst (negotiate f2 k2 w2 origin model msgs ew)"
proof -
  obtain r1 d1 i1 v1 where t1: "try_attempts f1 k1 w1 ps JNull = (r1, d1, i1, v1)"
    by (cases "try_attempts f1 k1 w1 ps JNull") auto
  obtain r2 d2 i2 v2 where t2: "try_attempts f2 k2 w2 ps JNull = (r2, d2, i2, v2)"
    by (cases "try_attempts f2 k2 w2 ps JNull") auto
  from try_attempts_by_replies[OF assms(1), of JNull] t1 t2 have "r1 = r2" "d1 = d2" by simp_all
  then show ?thesis using t1 t2 assms(2) by (simp add: negotiate_def split: option.splits)
qed

lemma negotiate_failure_detail:
  assumes "negotiate f k w origin model msgs ew = (Inr (failure_reply origin d), issued, w')"
  shows "issued \<noteq> [] \<and> d = detail_of (snd (last issued))"
proof -
  obtain ps where a: "attempts model msgs ew = Inr ps"
    using assms by (cases "attempts model msgs ew") (auto simp add: negotiate_def)
  then have ne: "ps \<noteq> []" by (auto simp add: attempts_def split: if_splits json.splits)
  obtain resp d1 i1 v1 where t: "try_attempts f k w ps JNull = (resp, d1, i1, v1)"
    by (cases "try_attempts f k w ps JNull") auto
  have none: "resp = None"
    using assms a t
    by (cases resp) (auto simp add: negotiate_def success_reply_def failure_reply_def json_response_def
        split: option.splits)
  then have e: "issued = i1" "d = d1"
    using assms a t by (auto simp add: negotiate_def failure_reply_def json_response_def)
  let ?rs = "replies f k w ps"
  note c = try_attempts_char[OF t]
  have n: "failed_prefix ?rs = length ps"
    using c none by (auto split: if_splits) (metis failed_prefix_def length_replies length_takeWhile_le le_neq_implies_less)
  have i: "i1 = zip (map (chat_request k) ps) ?rs" using c n by simp
  have rne: "?rs \<noteq> []" using ne by (cases ps) (auto split: prod.splits)
  have "i1 \<noteq> []" using i ne rne by (cases ps; cases ?rs) auto
  moreover have "snd (last i1) = last ?rs"
    unfolding i using ne rne
    by (simp add: last_conv_nth)
  moreover have "d1 = detail_of (last ?rs)"
    using c n ne rne by (simp add: last_conv_nth)
  ultimately show ?thesis using e by simp
qed

lemma handler_by_replies:
  assumes "k1 \<noteq> []" and "k2 \<noteq> []"
    and "\<forall>ps. replies fetch1 k1 w1 ps = replies fetch2 k2 w2 ps"
  shows "fst (handler getUser fetch1 (env\<lparr>OPENROUTER_API_KEY := Some k1\<rparr>) w1 req) =
         fst (handler getUser fetch2 (env\<lparr>OPENROUTER_API_KEY := Some k2\<rparr>) w2 req)"
proof -
  have n: "fst (negotiate fetch1 k1 w1 origin model msgs ew) = fst (negotiate fetch2 k2 w2 origin model msgs ew)"
    for origin model msgs ew
  proof (cases "attempts model msgs ew")
    case (Inl e)
    then show ?thesis by (simp add: negotiate_def)
  next
    case (Inr ps)
    from assms(3) have "replies fetch1 k1 w1 ps = replies fetch2 k2 w2 ps" by simp
    from negotiate_by_replies[OF this Inr] show ?thesis .
  qed
  show ?thesis
    using assms(1,2) n
    by (simp add: handler_def Let_def split: option.splits json.splits list.splits)
qed

lemma handler_failure_detail:
  assumes "handler getUser fetch env w req = (Inr (failure_reply (req_origin req) d), issued, w')"
  shows "issued \<noteq> [] \<and> d = detail_of (snd (last issued))"
proof -
  have fixed: "json_response st (error_body msg) origin \<noteq> failure_reply origin' d'" for st msg origin origin' d'
    by (simp add: json_response_def error_body_def failure_reply_def)
  have opts: "\<lparr>res_status = 200, res_headers = corsHeaders origin, res_body = TextBody (lit ''ok'')\<rparr>
                \<noteq> failure_reply origin' d'" for origin origin' d'
    by (simp add: json_response_def failure_reply_def)
  from assms obtain k model msgs ew where
    "negotiate fetch k w (req_origin req) model msgs ew = (Inr (failure_reply (req_origin req) d), issued, w')"
    by (auto simp add: handler_def Let_def fixed opts split: if_splits option.splits json.splits list.splits)
  then show ?thesis by (rule negotiate_failure_detail)
qed

lemma replies_demo_fetch: "replies demo_fetch k1 w ps = replies demo_fetch k2 w ps"
  by (induction ps arbitrary: w) (simp_all add: demo_fetch_def chat_request_def)

subsection \<open>The reveal and the trace of a send\<close>

lemma reveal_unfold: "reveal len i = (if min len (i + max 1 (len div 120)) \<ge> len then [min len (i + max 1 (len div 120))] else min len (i + max 1 (len div 120)) # reveal len (min len (i + max 1 (len div 120))))"
  by (subst reveal.simps) (simp add: Let_def)


lemma ceil_div_one:
  assumes "1 \<le> d" and "d \<le> (step::nat)"
  shows "(d + step - 1) div step = 1"
proof -
  obtain k where k: "d = Suc k" using assms(1) by (cases d) auto
  then have "k < step" using assms(2) by simp
  then have "(k + step) div step = 1" using div_add_self2[of step k] by simp
  moreover have "d + step - 1 = k + step" using k by simp
  ultimately show ?thesis by simp
qed

lemma ceil_div_step:
  assumes "1 \<le> (step::nat)"
  shows "(d + step + step - 1) div step = Suc ((d + step - 1) div step)"
proof -
  have e: "d + step + step - 1 = (d + step - 1) + step" using assms by simp
  have "step \<noteq> 0" using assms by simp
  then have "((d + step - 1) + step) div step = Suc ((d + step - 1) div step)" 
    using div_add_self2[of step "d + step - 1"] by simp
  then show ?thesis by (simp only: e)
qed

lemma reveal_props:
  "i < len \<Longrightarrow>
     sorted_wrt (<) (reveal len i) \<and> (\<forall>j \<in> set (reveal len i). i < j \<and> j \<le> len)
     \<and> last (reveal len i) = len \<and> reveal len i \<noteq> []
     \<and> length (reveal len i) = (len - i + max 1 (len div 120) - 1) div max 1 (len div 120)"
proof (induction len i rule: reveal.induct)
  case (1 len i)
  define step where "step = max 1 (len div 120)"
  define i' where "i' = min len (i + step)"
  have sp: "step \<ge> 1" by (simp add: step_def)
  have u: "reveal len i = (if i' \<ge> len then [i'] else i' # reveal len i')"
    unfolding i'_def step_def by (rule reveal_unfold)
  show ?case
  proof (cases "i' \<ge> len")
    case True
    then have e: "reveal len i = [len]" using u by (simp add: i'_def)
    from True have "len - i \<le> step" by (simp add: i'_def min_def split: if_splits)
    moreover have "len - i \<ge> 1" using 1(2) by simp
    ultimately have "(len - i + step - 1) div step = 1" by (intro ceil_div_one)
    with e 1(2) have "sorted_wrt (<) (reveal len i) \<and> (\<forall>j \<in> set (reveal len i). i < j \<and> j \<le> len)
     \<and> last (reveal len i) = len \<and> reveal len i \<noteq> []
     \<and> length (reveal len i) = (len - i + step - 1) div step" by simp
    then show ?thesis unfolding step_def .
  next
    case False
    then have lt: "i' < len" by simp
    then have i'eq: "i' = i + step" by (simp add: i'_def min_def split: if_splits)
    have e: "reveal len i = i' # reveal len i'" using False u by simp
    have ih: "sorted_wrt (<) (reveal len i') \<and> (\<forall>j \<in> set (reveal len i'). i' < j \<and> j \<le> len)
     \<and> last (reveal len i') = len \<and> reveal len i' \<noteq> []
     \<and> length (reveal len i') = (len - i' + step - 1) div step"
      using 1(1)[OF refl refl] False lt
      unfolding step_def i'_def by simp
    have "len - i = (len - i') + step" using lt i'eq by simp
    then have cnt: "(len - i + step - 1) div step = Suc ((len - i' + step - 1) div step)"
      using ceil_div_step[OF sp, of "len - i'"] by simp
    have "i < i'" using i'eq sp by simp
    then have "sorted_wrt (<) (reveal len i) \<and> (\<forall>j \<in> set (reveal len i). i < j \<and> j \<le> len)
     \<and> last (reveal len i) = len \<and> reveal len i \<noteq> []
     \<and> length (reveal len i) = (len - i + step - 1) div step"
      unfolding e using ih lt cnt by auto
    then show ?thesis unfolding step_def .
  qed
qed


lemma inserts_of_append [simp]: "inserts_of ro (xs @ ys) = inserts_of ro xs @ inserts_of ro ys"
  by (induction ro xs rule: inserts_of.induct) auto

lemma title_updates_append [simp]: "title_updates (xs @ ys) = title_updates xs @ title_updates ys"
  by (induction xs rule: title_updates.induct) auto

lemma invocations_append [simp]: "invocations (xs @ ys) = invocations xs @ invocations ys"
  by (induction xs rule: invocations.induct) auto

lemma alerts_append [simp]: "alerts (xs @ ys) = alerts xs @ alerts ys"
  by (induction xs rule: alerts.induct) auto

lemma views_append [simp]: "views (xs @ ys) = views xs @ views ys"
  by (induction xs rule: views.induct) auto

lemma obs_map_SetMessages [simp]:
  "inserts_of ro (map (\<lambda>k. SetMessages (f k)) ks) = []"
  "title_updates (map (\<lambda>k. SetMessages (f k)) ks) = []"
  "invocations (map (\<lambda>k. SetMessages (f k)) ks) = []"
  "alerts (map (\<lambda>k. SetMessages (f k)) ks) = []"
  "views (map (\<lambda>k. SetMessages (f k)) ks) = map f ks"
  by (induction ks) auto

lemma emit_simps [simp]: "trace (emit es r) = trace r @ es" "cur (emit es r) = cur r"
  by (simp_all add: emit_def)

lemma setMessages_simps [simp]:
  "trace (setMessages f r) = trace r @ [SetMessages (f (messages (cur r)))]"
  "cur (setMessages f r) = (cur r)\<lparr>messages := f (messages (cur r))\<rparr>"
  by (simp_all add: setMessages_def)

lemma reveal_in_twice [simp]:
  "reveal_in t txt i (reveal_in t txt j m) = reveal_in t txt i m"
  by (simp add: reveal_in_def)

lemma show_partial_simps [simp]:
  "trace (show_partial t txt k r) = trace r @ [SetMessages (map (reveal_in t txt k) (messages (cur r)))]"
  "cur (show_partial t txt k r) = (cur r)\<lparr>messages := map (reveal_in t txt k) (messages (cur r))\<rparr>"
  by (simp_all add: show_partial_def)

lemma fold_show_partial:
  "fold (show_partial t txt) ks r =
     \<lparr>cur = (cur r)\<lparr>messages := (if ks = [] then messages (cur r)
                                   else map (reveal_in t txt (last ks)) (messages (cur r)))\<rparr>,
      trace = trace r @ map (\<lambda>k. SetMessages (map (reveal_in t txt k) (messages (cur r)))) ks\<rparr>"
proof (induction ks arbitrary: r)
  case Nil
  then show ?case by simp
next
  case (Cons k ks)
  show ?case
    by (simp add: Cons.IH comp_def)
qed


lemma ensureConversation_obs [simp]:
  "inserts_of ro (trace (snd (ensureConversation ans s r))) = inserts_of ro (trace r)"
  "title_updates (trace (snd (ensureConversation ans s r))) = title_updates (trace r)"
  "invocations (trace (snd (ensureConversation ans s r))) = invocations (trace r)"
  "alerts (trace (snd (ensureConversation ans s r))) = alerts (trace r)"
  "views (trace (snd (ensureConversation ans s r))) = views (trace r)"
  "messages (cur (snd (ensureConversation ans s r))) = messages (cur r)"
  by (auto simp add: ensureConversation_def split: awaited.splits prod.splits)

lemma insertUserMessage_cases:
  "insertUserMessage ans s cid content r =
     (if first_insert_failed ans \<and> attachments s \<noteq> [] then
        (case fallback_insert ans of
           Rejected \<Rightarrow> (False, emit [InsertMessage (insertPayload cid content (attachments s)),
                                     InsertMessage \<lparr>ip_conversation_id = cid, ip_role = User,
                                        ip_content = (if content \<noteq> [] then content else attached_files (attachments s)),
                                        ip_attachments = None\<rparr>] r)
         | Resolved None \<Rightarrow> (True, emit [InsertMessage (insertPayload cid content (attachments s)),
                                     InsertMessage \<lparr>ip_conversation_id = cid, ip_role = User,
                                        ip_content = (if content \<noteq> [] then content else attached_files (attachments s)),
                                        ip_attachments = None\<rparr>] r)
         | Resolved (Some row) \<Rightarrow>
             (True, setMessages (\<lambda>prev. prev @ [row])
                      (emit [InsertMessage (insertPayload cid content (attachments s)),
                             InsertMessage \<lparr>ip_conversation_id = cid, ip_role = User,
                                        ip_content = (if content \<noteq> [] then content else attached_files (attachments s)),
                                        ip_attachments = None\<rparr>] r)))
      else
        (case insertedUser ans (attachments s) of
           None \<Rightarrow> (True, emit [InsertMessage (insertPayload cid content (attachments s))] r)
         | Some row \<Rightarrow> (True, setMessages (\<lambda>prev. prev @ [row])
                               (emit [InsertMessage (insertPayload cid content (attachments s))] r))))"
proof (cases "user_insert ans")
  case Rejected
  then show ?thesis
    by (cases "fallback_insert ans")
       (simp_all add: insertUserMessage_def first_insert_failed_def insertedUser_def Let_def emit_def
          split: option.splits)
next
  case (Resolved p)
  obtain data error where p: "p = (data, error)" by (cases p)
  show ?thesis
    using Resolved p
    by (cases "fallback_insert ans"; cases data)
       (simp_all add: insertUserMessage_def first_insert_failed_def insertedUser_def Let_def emit_def
          split: option.splits)
qed


lemma insertUserMessage_obs [simp]:
  "inserts_of User (trace (snd (insertUserMessage ans s cid content r))) =
     inserts_of User (trace r) @ insertPayload cid content (attachments s)
       # (if first_insert_failed ans \<and> attachments s \<noteq> []
          then [\<lparr>ip_conversation_id = cid, ip_role = User,
                  ip_content = (if content \<noteq> [] then content else attached_files (attachments s)),
                  ip_attachments = None\<rparr>]
          else [])"
  "inserts_of Assistant (trace (snd (insertUserMessage ans s cid content r))) = inserts_of Assistant (trace r)"
  "title_updates (trace (snd (insertUserMessage ans s cid content r))) = title_updates (trace r)"
  "invocations (trace (snd (insertUserMessage ans s cid content r))) = invocations (trace r)"
  "alerts (trace (snd (insertUserMessage ans s cid content r))) = alerts (trace r)"
  "views (trace (snd (insertUserMessage ans s cid content r))) =
     views (trace r) @ (case insertedUser ans (attachments s) of None \<Rightarrow> [] | Some row \<Rightarrow> [messages (cur r) @ [row]])"
  "messages (cur (snd (insertUserMessage ans s cid content r))) =
     messages (cur r) @ (case insertedUser ans (attachments s) of None \<Rightarrow> [] | Some row \<Rightarrow> [row])"
  "fst (insertUserMessage ans s cid content r) =
     (\<not> (first_insert_failed ans \<and> attachments s \<noteq> [] \<and> fallback_insert ans = Rejected))"
  by (simp_all add: insertUserMessage_cases insertedUser_def insertPayload_def
      split: awaited.splits option.splits)

lemma titleConversation_obs [simp]:
  "inserts_of ro (trace (snd (titleConversation ans s cid content r))) = inserts_of ro (trace r)"
  "title_updates (trace (snd (titleConversation ans s cid content r))) =
     title_updates (trace r)
     @ (if \<not> present (case activeConversation s of None \<Rightarrow> None | Some c \<Rightarrow> c_title c)
        then [(cid, summarized content)] else [])"
  "invocations (trace (snd (titleConversation ans s cid content r))) = invocations (trace r)"
  "alerts (trace (snd (titleConversation ans s cid content r))) = alerts (trace r)"
  "views (trace (snd (titleConversation ans s cid content r))) = views (trace r)"
  "messages (cur (snd (titleConversation ans s cid content r))) = messages (cur r)"
  "fst (titleConversation ans s cid content r) =
     (present (case activeConversation s of None \<Rightarrow> None | Some c \<Rightarrow> c_title c) \<or> title_update ans \<noteq> Rejected)"
  by (simp_all add: titleConversation_def split: awaited.splits)


lemma callGateway_obs [simp]:
  "inserts_of ro (trace (snd (callGateway ans s msgs r))) = inserts_of ro (trace r)"
  "title_updates (trace (snd (callGateway ans s msgs r))) = title_updates (trace r)"
  "invocations (trace (snd (callGateway ans s msgs r))) =
     invocations (trace r)
     @ (case get_session ans of
          Rejected \<Rightarrow> []
        | Resolved accessToken \<Rightarrow>
            [(\<lparr>ib_messages = msgs, ib_model = selectedModel s, ib_enableWeb = enableWeb s\<rparr>,
              if present accessToken then Some (lit ''Bearer '' @ the accessToken) else None)])"
  "alerts (trace (snd (callGateway ans s msgs r))) = alerts (trace r)"
  "views (trace (snd (callGateway ans s msgs r))) = views (trace r)"
  "messages (cur (snd (callGateway ans s msgs r))) = messages (cur r)"
  by (simp_all add: callGateway_def Let_def split: awaited.splits prod.splits)

lemma showAssistant_empty [simp]: "showAssistant ans cid [] r = (True, r)"
  by (simp add: showAssistant_def)


lemma showAssistant_trace:
  assumes "t \<noteq> []"
  shows "trace (snd (showAssistant ans cid t r)) =
     trace r
     @ [SetMessages (messages (cur r) @ [\<lparr>m_id = lit ''temp-'' @ show_nat (date_now ans), m_conversation_id = cid,
                                          m_role = Assistant, m_content = [], m_created_at = placeholder_now ans\<rparr>])]
     @ map (\<lambda>k. SetMessages (map (reveal_in (lit ''temp-'' @ show_nat (date_now ans)) t k)
                 (messages (cur r) @ [\<lparr>m_id = lit ''temp-'' @ show_nat (date_now ans), m_conversation_id = cid,
                                          m_role = Assistant, m_content = [], m_created_at = placeholder_now ans\<rparr>])))
           (reveal (length t) 0)
     @ [InsertMessage \<lparr>ip_conversation_id = cid, ip_role = Assistant, ip_content = t, ip_attachments = None\<rparr>]
     @ (case assistant_insert ans of
          Resolved (Some finalMsg) \<Rightarrow>
            [SetMessages (map (\<lambda>m. if m_id m = lit ''temp-'' @ show_nat (date_now ans) then finalMsg else m)
               (map (reveal_in (lit ''temp-'' @ show_nat (date_now ans)) t (last (reveal (length t) 0)))
                 (messages (cur r) @ [\<lparr>m_id = lit ''temp-'' @ show_nat (date_now ans), m_conversation_id = cid,
                                          m_role = Assistant, m_content = [], m_created_at = placeholder_now ans\<rparr>])))]
        | _ \<Rightarrow> [])"
proof -
  define tempId where "tempId = lit ''temp-'' @ show_nat (date_now ans)"
  define ph where "ph = \<lparr>m_id = tempId, m_conversation_id = cid, m_role = Assistant, m_content = [],
                          m_created_at = placeholder_now ans\<rparr>"
  define ks where "ks = reveal (length t) 0"
  define r1 where "r1 = setMessages (\<lambda>prev. prev @ [ph]) r"
  define r2 where "r2 = fold (show_partial tempId t) ks r1"
  define r3 where "r3 = emit [InsertMessage \<lparr>ip_conversation_id = cid, ip_role = Assistant,
                                       ip_content = t, ip_attachments = None\<rparr>] r2"
  have "0 < length t" using assms by simp
  then have ne: "ks \<noteq> []" unfolding ks_def using reveal_props[of 0 "length t"] by blast
  have sa: "showAssistant ans cid t r =
      (case assistant_insert ans of
              Rejected \<Rightarrow> (False, r3)
            | Resolved None \<Rightarrow> (True, r3)
            | Resolved (Some finalMsg) \<Rightarrow>
                (True, setMessages (map (\<lambda>m. if m_id m = tempId then finalMsg else m)) r3))"
    unfolding showAssistant_def Let_def r3_def r2_def r1_def ks_def ph_def tempId_def
    by (simp only: assms[THEN eqTrueI] if_True)
  have t1: "trace r1 = trace r @ [SetMessages (messages (cur r) @ [ph])]"
    and m1: "messages (cur r1) = messages (cur r) @ [ph]"
    by (simp_all add: r1_def)
  have t2: "trace r2 = trace r1 @ map (\<lambda>k. SetMessages (map (reveal_in tempId t k) (messages (cur r1)))) ks"
    and m2: "messages (cur r2) = map (reveal_in tempId t (last ks)) (messages (cur r1))"
    using ne by (simp_all add: r2_def fold_show_partial)
  have t3: "trace r3 = trace r2 @ [InsertMessage \<lparr>ip_conversation_id = cid, ip_role = Assistant,
                                       ip_content = t, ip_attachments = None\<rparr>]"
    and m3: "messages (cur r3) = messages (cur r2)"
    by (simp_all add: r3_def)
  have "trace (snd (showAssistant ans cid t r)) =
     trace r @ [SetMessages (messages (cur r) @ [ph])]
     @ map (\<lambda>k. SetMessages (map (reveal_in tempId t k) (messages (cur r) @ [ph]))) ks
     @ [InsertMessage \<lparr>ip_conversation_id = cid, ip_role = Assistant, ip_content = t, ip_attachments = None\<rparr>]
     @ (case assistant_insert ans of
          Resolved (Some finalMsg) \<Rightarrow>
            [SetMessages (map (\<lambda>m. if m_id m = tempId then finalMsg else m)
               (map (reveal_in tempId t (last ks)) (messages (cur r) @ [ph])))]
        | _ \<Rightarrow> [])"
  proof (cases "assistant_insert ans")
    case Rejected
    then show ?thesis by (simp add: sa t3 t2 t1 m1)
  next
    case (Resolved d)
    then show ?thesis by (cases d) (simp_all add: sa t3 t2 t1 m1 m2 m3)
  qed
  then show ?thesis unfolding tempId_def ph_def ks_def tempId_def .
qed

lemma showAssistant_inserts_User [simp]:
  "inserts_of User (trace (snd (showAssistant ans cid t r))) = inserts_of User (trace r)"
proof (cases "t = []")
  case True
  then show ?thesis by simp
next
  case False
  show ?thesis
  proof (cases "assistant_insert ans")
    case Rejected
    then show ?thesis by (simp only: showAssistant_trace[OF False] inserts_of_append) (simp add: False)
  next
    case (Resolved d)
    then show ?thesis by (cases d) (simp only: showAssistant_trace[OF False] inserts_of_append, simp add: False)+
  qed
qed

lemma showAssistant_inserts_Assistant [simp]:
  "inserts_of Assistant (trace (snd (showAssistant ans cid t r))) =
     inserts_of Assistant (trace r)
     @ (if t \<noteq> [] then [\<lparr>ip_conversation_id = cid, ip_role = Assistant, ip_content = t, ip_attachments = None\<rparr>]
        else [])"
proof (cases "t = []")
  case True
  then show ?thesis by simp
next
  case False
  show ?thesis
  proof (cases "assistant_insert ans")
    case Rejected
    then show ?thesis by (simp only: showAssistant_trace[OF False] inserts_of_append) (simp add: False)
  next
    case (Resolved d)
    then show ?thesis by (cases d) (simp only: showAssistant_trace[OF False] inserts_of_append, simp add: False)+
  qed
qed

lemma showAssistant_title_updates [simp]:
  "title_updates (trace (snd (showAssistant ans cid t r))) = title_updates (trace r)"
proof (cases "t = []")
  case True
  then show ?thesis by simp
next
  case False
  show ?thesis
  proof (cases "assistant_insert ans")
    case Rejected
    then show ?thesis by (simp only: showAssistant_trace[OF False] title_updates_append) (simp add: False)
  next
    case (Resolved d)
    then show ?thesis by (cases d) (simp only: showAssistant_trace[OF False] title_updates_append, simp add: False)+
  qed
qed

lemma showAssistant_invocations [simp]:
  "invocations (trace (snd (showAssistant ans cid t r))) = invocations (trace r)"
proof (cases "t = []")
  case True
  then show ?thesis by simp
next
  case False
  show ?thesis
  proof (cases "assistant_insert ans")
    case Rejected
    then show ?thesis by (simp only: showAssistant_trace[OF False] invocations_append) (simp add: False)
  next
    case (Resolved d)
    then show ?thesis by (cases d) (simp only: showAssistant_trace[OF False] invocations_append, simp add: False)+
  qed
qed

lemma showAssistant_alerts [simp]:
  "alerts (trace (snd (showAssistant ans cid t r))) = alerts (trace r)"
proof (cases "t = []")
  case True
  then show ?thesis by simp
next
  case False
  show ?thesis
  proof (cases "assistant_insert ans")
    case Rejected
    then show ?thesis by (simp only: showAssistant_trace[OF False] alerts_append) (simp add: False)
  next
    case (Resolved d)
    then show ?thesis by (cases d) (simp only: showAssistant_trace[OF False] alerts_append, simp add: False)+
  qed
qed

lemma handleSend_ignored: "ignored s \<Longrightarrow> handleSend ans s = \<lparr>cur = s, trace = []\<rparr>"
  by (simp add: handleSend_def)

lemma handleSend_trace:
  assumes "\<not> ignored s"
  shows "trace (handleSend ans s) =
     trace (snd (send_body ans s (send_text s) \<lparr>cur = s\<lparr>sending := True\<rparr>, trace = []\<rparr>))
     @ (if fst (send_body ans s (send_text s) \<lparr>cur = s\<lparr>sending := True\<rparr>, trace = []\<rparr>) then []
        else [ConsoleError, Alert (lit ''Failed to send message'')])"
  by (simp only: handleSend_def if_not_P[OF assms]) (simp add: split_beta Let_def)

lemma handleSend_messages:
  assumes "\<not> ignored s"
  shows "messages (cur (handleSend ans s)) =
     messages (cur (snd (send_body ans s (send_text s) \<lparr>cur = s\<lparr>sending := True\<rparr>, trace = []\<rparr>)))"
  by (simp only: handleSend_def if_not_P[OF assms]) (simp add: split_beta Let_def)

lemma ensureConversation_fst [simp]: "fst (ensureConversation ans s r) = conversationId ans s"
  by (simp add: ensureConversation_def conversationId_def split: awaited.splits prod.splits)

lemma callGateway_fst [simp]: "fst (callGateway ans s msgs r) = assistantText ans"
  by (simp add: callGateway_def assistantText_def Let_def split: awaited.splits prod.splits)

lemma send_body_unfold:
  "send_body ans s t r =
     (if fst (ensureConversation ans s r) = None then (False, snd (ensureConversation ans s r))
      else
        let cid = the (fst (ensureConversation ans s r));
            content = userMessageContent t (attachments s);
            r1 = snd (ensureConversation ans s r);
            r2 = r1\<lparr>cur := (cur r1)\<lparr>input := [],
                                     pendingQuery := (if present (pendingQuery s) then None
                                                      else pendingQuery (cur r1))\<rparr>\<rparr>;
            r3 = snd (insertUserMessage ans s cid content r2);
            r4 = snd (titleConversation ans s cid content r3);
            r5 = snd (callGateway ans s (messagesForLLM s content) r4)
        in if fst (insertUserMessage ans s cid content r2) then
             (if fst (titleConversation ans s cid content r3) then
                (if fst (callGateway ans s (messagesForLLM s content) r4) = None then (False, r5)
                 else showAssistant ans cid (the (fst (callGateway ans s (messagesForLLM s content) r4))) r5)
              else (False, r4))
           else (False, r3))"
  unfolding send_body_def Let_def
  by (simp only: case_prod_beta option.case_eq_if bool.case_eq_if simp_thms)

lemma showAssistant_fst [simp]:
  "fst (showAssistant ans cid t r) = (t = [] \<or> assistant_insert ans \<noteq> Rejected)"
  by (simp add: showAssistant_def Let_def split: awaited.splits option.splits)

lemma send_body_title_updates:
  "title_updates (trace (snd (send_body ans s t r))) =
     title_updates (trace r)
     @ (if conversationId ans s \<noteq> None
           \<and> \<not> (first_insert_failed ans \<and> attachments s \<noteq> [] \<and> fallback_insert ans = Rejected)
           \<and> \<not> present (case activeConversation s of None \<Rightarrow> None | Some c \<Rightarrow> c_title c)
        then [(the (conversationId ans s), summarized (userMessageContent t (attachments s)))]
        else [])"
  by (simp add: send_body_unfold Let_def)

lemma send_body_inserts_User:
  "inserts_of User (trace (snd (send_body ans s t r))) =
     inserts_of User (trace r)
     @ (if conversationId ans s = None then []
        else insertPayload (the (conversationId ans s)) (userMessageContent t (attachments s)) (attachments s)
             # (if first_insert_failed ans \<and> attachments s \<noteq> []
                then [\<lparr>ip_conversation_id = the (conversationId ans s), ip_role = User,
                        ip_content = (if userMessageContent t (attachments s) \<noteq> [] then userMessageContent t (attachments s)
                                      else attached_files (attachments s)),
                        ip_attachments = None\<rparr>]
                else []))"
  by (simp add: send_body_unfold Let_def)

lemma send_body_inserts_Assistant:
  "inserts_of Assistant (trace (snd (send_body ans s t r))) =
     inserts_of Assistant (trace r)
     @ (if conversationId ans s \<noteq> None
           \<and> \<not> (first_insert_failed ans \<and> attachments s \<noteq> [] \<and> fallback_insert ans = Rejected)
           \<and> (present (case activeConversation s of None \<Rightarrow> None | Some c \<Rightarrow> c_title c) \<or> title_update ans \<noteq> Rejected)
           \<and> assistantText ans \<noteq> None \<and> assistantText ans \<noteq> Some []
        then [\<lparr>ip_conversation_id = the (conversationId ans s), ip_role = Assistant,
                ip_content = the (assistantText ans), ip_attachments = None\<rparr>]
        else [])"
  by (auto simp add: send_body_unfold Let_def)

lemma send_body_invocations:
  "invocations (trace (snd (send_body ans s t r))) =
     invocations (trace r)
     @ (if conversationId ans s \<noteq> None
           \<and> \<not> (first_insert_failed ans \<and> attachments s \<noteq> [] \<and> fallback_insert ans = Rejected)
           \<and> (present (case activeConversation s of None \<Rightarrow> None | Some c \<Rightarrow> c_title c) \<or> title_update ans \<noteq> Rejected)
        then (case get_session ans of
                Rejected \<Rightarrow> []
              | Resolved accessToken \<Rightarrow>
                  [(\<lparr>ib_messages = messagesForLLM s (userMessageContent t (attachments s)),
                     ib_model = selectedModel s, ib_enableWeb = enableWeb s\<rparr>,
                    if present accessToken then Some (lit ''Bearer '' @ the accessToken) else None)])
        else [])"
  by (simp add: send_body_unfold Let_def)

lemma send_body_alerts: "alerts (trace (snd (send_body ans s t r))) = alerts (trace r)"
  by (simp add: send_body_unfold Let_def)

lemma send_body_fst:
  "fst (send_body ans s t r) =
     (conversationId ans s \<noteq> None
      \<and> \<not> (first_insert_failed ans \<and> attachments s \<noteq> [] \<and> fallback_insert ans = Rejected)
      \<and> (present (case activeConversation s of None \<Rightarrow> None | Some c \<Rightarrow> c_title c) \<or> title_update ans \<noteq> Rejected)
      \<and> assistantText ans \<noteq> None
      \<and> (assistantText ans = Some [] \<or> assistant_insert ans \<noteq> Rejected))"
  by (auto simp add: send_body_unfold Let_def)

lemma send_body_views_empty:
  assumes "assistantText ans = Some []"
  shows "views (trace (snd (send_body ans s t r))) =
     views (trace r)
     @ (if conversationId ans s \<noteq> None
        then (case insertedUser ans (attachments s) of None \<Rightarrow> [] | Some row \<Rightarrow> [messages (cur r) @ [row]])
        else [])"
    and "messages (cur (snd (send_body ans s t r))) =
     messages (cur r)
     @ (if conversationId ans s \<noteq> None
        then (case insertedUser ans (attachments s) of None \<Rightarrow> [] | Some row \<Rightarrow> [row])
        else [])"
  using assms by (simp_all add: send_body_unfold Let_def split: option.splits)

lemma userMessageContent_nonempty:
  "t \<noteq> [] \<or> atts \<noteq> [] \<Longrightarrow> userMessageContent t atts \<noteq> []"
  by (auto simp add: userMessageContent_def attached_files_def lit_def)

lemma insertUserMessage_cur:
  "\<exists>ms. cur (snd (insertUserMessage ans s cid content r)) = (cur r)\<lparr>messages := ms\<rparr>"
  by (rule exI[of _ "messages (cur (snd (insertUserMessage ans s cid content r)))"])
     (simp add: insertUserMessage_cases split: awaited.splits option.splits)

lemma titleConversation_cur [simp]: "cur (snd (titleConversation ans s cid content r)) = cur r"
  by (simp add: titleConversation_def split: awaited.splits)

lemma callGateway_cur [simp]: "cur (snd (callGateway ans s msgs r)) = cur r"
  by (simp add: callGateway_def Let_def split: awaited.splits prod.splits)

lemma showAssistant_cur:
  "\<exists>ms. cur (snd (showAssistant ans cid t r)) = (cur r)\<lparr>messages := ms\<rparr>"
proof (cases "t = []")
  case True
  have "cur r = (cur r)\<lparr>messages := messages (cur r)\<rparr>" by simp
  then have "\<exists>ms. cur r = (cur r)\<lparr>messages := ms\<rparr>" by (rule exI)
  then show ?thesis using True by simp
next
  case False
  define tempId where "tempId = lit ''temp-'' @ show_nat (date_now ans)"
  define ph where "ph = \<lparr>m_id = tempId, m_conversation_id = cid, m_role = Assistant, m_content = [],
                          m_created_at = placeholder_now ans\<rparr>"
  define r3 where "r3 = emit [InsertMessage \<lparr>ip_conversation_id = cid, ip_role = Assistant,
                                       ip_content = t, ip_attachments = None\<rparr>]
      (fold (show_partial tempId t) (reveal (length t) 0) (setMessages (\<lambda>prev. prev @ [ph]) r))"
  have sa: "showAssistant ans cid t r =
      (case assistant_insert ans of
              Rejected \<Rightarrow> (False, r3)
            | Resolved None \<Rightarrow> (True, r3)
            | Resolved (Some finalMsg) \<Rightarrow>
                (True, setMessages (map (\<lambda>m. if m_id m = tempId then finalMsg else m)) r3))"
    unfolding showAssistant_def Let_def r3_def ph_def tempId_def
    by (simp only: False[THEN eqTrueI] if_True)
  obtain m3 where c3: "cur r3 = (cur r)\<lparr>messages := m3\<rparr>"
    by (simp add: r3_def fold_show_partial split: if_splits)
  show ?thesis
  proof (cases "assistant_insert ans")
    case Rejected
    then show ?thesis using c3 by (auto simp add: sa)
  next
    case (Resolved d)
    then show ?thesis using c3 by (cases d) (auto simp add: sa)
  qed
qed


lemma ensureConversation_cur:
  "cur (snd (ensureConversation ans s r)) =
     (if present (activeId s) \<or> conversationId ans s = None then cur r
      else (cur r)\<lparr>conversations :=
                       \<lparr>c_id = the (conversationId ans s), c_user_id = userId s, c_title = None,
                        c_created_at = created_now ans, c_updated_at = updated_now ans\<rparr>
                       # conversations (cur r),
                     activeId := conversationId ans s\<rparr>)"
  by (auto simp add: ensureConversation_def conversationId_def split: awaited.splits prod.splits)

lemma send_body_cur:
  assumes "conversationId ans s \<noteq> None"
  shows "\<exists>ms. cur (snd (send_body ans s t r)) =
     (cur (snd (ensureConversation ans s r)))
       \<lparr>input := [],
        pendingQuery := (if present (pendingQuery s) then None
                         else pendingQuery (cur (snd (ensureConversation ans s r)))),
        messages := ms\<rparr>"
proof -
  define cid where "cid = the (conversationId ans s)"
  define content where "content = userMessageContent t (attachments s)"
  define r2 where "r2 = (snd (ensureConversation ans s r))
       \<lparr>cur := (cur (snd (ensureConversation ans s r)))\<lparr>input := [],
                                     pendingQuery := (if present (pendingQuery s) then None
                                                      else pendingQuery (cur (snd (ensureConversation ans s r))))\<rparr>\<rparr>"
  define r3 where "r3 = snd (insertUserMessage ans s cid content r2)"
  define r5 where "r5 = snd (callGateway ans s (messagesForLLM s content) (snd (titleConversation ans s cid content r3)))"
  obtain m3 where c3: "cur r3 = (cur r2)\<lparr>messages := m3\<rparr>"
    unfolding r3_def using insertUserMessage_cur by blast
  have c5: "cur r5 = cur r3" by (simp add: r5_def)
  obtain m6 where c6: "cur (snd (showAssistant ans cid (the (assistantText ans)) r5)) = (cur r5)\<lparr>messages := m6\<rparr>"
    using showAssistant_cur by blast
  have sb: "send_body ans s t r =
      (if fst (insertUserMessage ans s cid content r2) then
         (if fst (titleConversation ans s cid content r3) then
            (if assistantText ans = None then (False, r5)
             else showAssistant ans cid (the (assistantText ans)) r5)
          else (False, snd (titleConversation ans s cid content r3)))
       else (False, r3))"
    unfolding r5_def r3_def r2_def content_def cid_def
    by (simp only: send_body_unfold Let_def ensureConversation_fst callGateway_fst
        assms[THEN Eq_FalseI] if_False)
  have "snd (send_body ans s t r) = r3 \<or> snd (send_body ans s t r) = snd (titleConversation ans s cid content r3)
      \<or> snd (send_body ans s t r) = r5
      \<or> snd (send_body ans s t r) = snd (showAssistant ans cid (the (assistantText ans)) r5)"
    unfolding sb by (simp only: snd_conv split: if_split) blast
  then have "\<exists>ms. cur (snd (send_body ans s t r)) = (cur r2)\<lparr>messages := ms\<rparr>"
    using c3 c5 c6 by auto
  then show ?thesis by (simp add: r2_def)
qed

lemma handleSend_cur:
  assumes "\<not> ignored s"
  shows "cur (handleSend ans s) =
     (cur (snd (send_body ans s (send_text s) \<lparr>cur = s\<lparr>sending := True\<rparr>, trace = []\<rparr>)))
       \<lparr>sending := False, attachments := []\<rparr>"
  by (simp only: handleSend_def if_not_P[OF assms]) (simp add: split_beta Let_def)

lemma handleSend_title_updates:
  "title_updates (trace (handleSend ans s)) =
     (if \<not> ignored s \<and> conversationId ans s \<noteq> None
         \<and> \<not> (first_insert_failed ans \<and> attachments s \<noteq> [] \<and> fallback_insert ans = Rejected)
         \<and> \<not> present (case activeConversation s of None \<Rightarrow> None | Some c \<Rightarrow> c_title c)
      then [(the (conversationId ans s), summarized (userMessageContent (send_text s) (attachments s)))]
      else [])"
  by (cases "ignored s") (simp_all add: handleSend_ignored handleSend_trace send_body_title_updates)

lemma stored_title_updates:
  "stored_title c title es = foldl (\<lambda>t u. if fst u = c then Some (snd u) else t) title (title_updates es)"
  by (induction c title es rule: stored_title.induct) simp_all

lemma trim_Hello: "trim (lit ''Hello'') = lit ''Hello''"
  by (simp add: trim_def lit_def is_space_def)

lemma trim_World: "trim (lit ''World'') = lit ''World''"
  by (simp add: trim_def lit_def is_space_def)

lemma demo_facts:
  "send_text demo_client = lit ''Hello''"
  "\<not> ignored demo_client"
  "conversationId demo_answers demo_client = Some (lit ''c-1'')"
  "activeConversation demo_client = None"
  "assistantText demo_answers = Some (lit ''Hi there'')"
  "\<not> first_insert_failed demo_answers"
  "attachments demo_client = []"
  by (simp_all add: send_text_def ignored_def demo_client_def demo_answers_def conversationId_def
      activeConversation_def assistantText_def first_insert_failed_def trim_Hello)
     (simp_all add: lit_def)

lemma handleSend_inserts_User:
  assumes "\<not> ignored s"
  shows "inserts_of User (trace (handleSend ans s)) =
     (if conversationId ans s = None then []
      else insertPayload (the (conversationId ans s)) (userMessageContent (send_text s) (attachments s)) (attachments s)
           # (if first_insert_failed ans \<and> attachments s \<noteq> []
              then [\<lparr>ip_conversation_id = the (conversationId ans s), ip_role = User,
                      ip_content = userMessageContent (send_text s) (attachments s),
                      ip_attachments = None\<rparr>]
              else []))"
  using userMessageContent_nonempty[of "send_text s" "attachments s"]
  by (simp add: handleSend_trace[OF assms] send_body_inserts_User)

lemma demo_title_updates:
  "title_updates (trace (handleSend demo_answers demo_client)) = [(lit ''c-1'', lit ''Hello'')]"
  by (simp add: handleSend_title_updates demo_facts userMessageContent_def summarized_def)
     (simp add: lit_def)

lemma text_plain_type:
  "lit ''text/plain'' \<noteq> []" "\<not> startsWith (lit ''text/plain'') (lit ''image/'')"
  "is_text_type (lit ''text/plain'')"
  by (simp_all add: is_text_type_def startsWith_def lit_def)

lemma demo_note_attachment:
  "a_name (to_attachment demo_note) = lit ''note.txt''"
  "a_textContent (to_attachment demo_note) = Some (lit ''abc'')"
  "a_dataUrl (to_attachment demo_note) = None"
  by (simp_all add: to_attachment_def demo_note_def Let_def text_plain_type)

lemma demo_files_facts:
  "send_text demo_files_client = []"
  "\<not> ignored demo_files_client"
  "\<not> sending demo_files_client"
  "conversationId demo_answers demo_files_client = Some (lit ''c-1'')"
  "attachments demo_files_client = [to_attachment demo_note]"
  by (simp_all add: demo_files_client_def demo_client_def send_text_def trim_def ignored_def
      conversationId_def demo_answers_def)

lemma demo_empty_facts:
  "assistantText demo_empty_answers = Some []"
  "conversationId demo_empty_answers demo_client = Some (lit ''c-1'')"
  "insertedUser demo_empty_answers [] = Some demo_user_row"
  by (simp_all add: demo_empty_answers_def demo_answers_def assistantText_def conversationId_def
      demo_client_def insertedUser_def first_insert_failed_def)

lemma process_accepted_eq:
  "process_accepted fs =
     (map skipped_notice (filter (\<lambda>f. f_size f > maxBytes) fs),
      map to_attachment (filter (\<lambda>f. f_size f \<le> maxBytes) fs))"
  by (induction fs) (auto split: prod.splits)

lemma combine_eq:
  "combine atts combined images =
     (combined @ concat (map (\<lambda>a. if present (a_textContent a) then text_section a
                                  else if startsWith (a_type a) (lit ''image/'') \<and> present (a_dataUrl a) then []
                                  else no_text_section a) atts),
      images @ map (\<lambda>a. (the (a_dataUrl a), a_name a))
                 (filter (\<lambda>a. \<not> present (a_textContent a) \<and> startsWith (a_type a) (lit ''image/'')
                               \<and> present (a_dataUrl a)) atts))"
  by (induction atts arbitrary: combined images) simp_all

lemma combine_section:
  assumes "a \<in> set atts" and "present (a_textContent a)"
  shows "\<exists>x y. fst (combine atts combined images) = x @ text_section a @ y"
proof -
  define g where "g = (\<lambda>a. if present (a_textContent a) then text_section a
                                  else if startsWith (a_type a) (lit ''image/'') \<and> present (a_dataUrl a) then []
                                  else no_text_section a)"
  from assms(1) obtain pre post where s: "atts = pre @ a # post" by (meson split_list)
  have "fst (combine atts combined images) = combined @ concat (map g atts)"
    by (simp add: combine_eq g_def)
  also have "\<dots> = (combined @ concat (map g pre)) @ g a @ concat (map g post)"
    by (simp add: s)
  also have "g a = text_section a" using assms(2) by (simp add: g_def)
  finally show ?thesis by blast
qed

lemma showAssistant_views:
  assumes "t \<noteq> []"
  shows "views (trace (snd (showAssistant ans cid t r))) =
     views (trace r)
     @ [messages (cur r) @ [\<lparr>m_id = lit ''temp-'' @ show_nat (date_now ans), m_conversation_id = cid,
                             m_role = Assistant, m_content = [], m_created_at = placeholder_now ans\<rparr>]]
     @ map (\<lambda>k. map (reveal_in (lit ''temp-'' @ show_nat (date_now ans)) t k)
                 (messages (cur r) @ [\<lparr>m_id = lit ''temp-'' @ show_nat (date_now ans), m_conversation_id = cid,
                                          m_role = Assistant, m_content = [], m_created_at = placeholder_now ans\<rparr>]))
           (reveal (length t) 0)
     @ (case assistant_insert ans of
          Resolved (Some finalMsg) \<Rightarrow>
            [map (\<lambda>m. if m_id m = lit ''temp-'' @ show_nat (date_now ans) then finalMsg else m)
               (map (reveal_in (lit ''temp-'' @ show_nat (date_now ans)) t (length t))
                 (messages (cur r) @ [\<lparr>m_id = lit ''temp-'' @ show_nat (date_now ans), m_conversation_id = cid,
                                          m_role = Assistant, m_content = [], m_created_at = placeholder_now ans\<rparr>]))]
        | _ \<Rightarrow> [])"
proof -
  have "0 < length t" using assms by simp
  then have l: "last (reveal (length t) 0) = length t" using reveal_props[of 0 "length t"] by blast
  show ?thesis
  proof (cases "assistant_insert ans")
    case Rejected
    then show ?thesis by (simp only: showAssistant_trace[OF assms] views_append l) simp
  next
    case (Resolved d)
    then show ?thesis by (cases d) (simp only: showAssistant_trace[OF assms] views_append l, simp)+
  qed
qed

lemma handleSend_inserts_Assistant:
  "inserts_of Assistant (trace (handleSend ans s)) =
     (if \<not> ignored s \<and> conversationId ans s \<noteq> None
         \<and> \<not> (first_insert_failed ans \<and> attachments s \<noteq> [] \<and> fallback_insert ans = Rejected)
         \<and> (present (case activeConversation s of None \<Rightarrow> None | Some c \<Rightarrow> c_title c) \<or> title_update ans \<noteq> Rejected)
         \<and> assistantText ans \<noteq> None \<and> assistantText ans \<noteq> Some []
      then [\<lparr>ip_conversation_id = the (conversationId ans s), ip_role = Assistant,
              ip_content = the (assistantText ans), ip_attachments = None\<rparr>]
      else [])"
  by (cases "ignored s") (simp_all add: handleSend_ignored handleSend_trace send_body_inserts_Assistant)

lemma handleSend_invocations:
  "invocations (trace (handleSend ans s)) =
     (if \<not> ignored s \<and> conversationId ans s \<noteq> None
           \<and> \<not> (first_insert_failed ans \<and> attachments s \<noteq> [] \<and> fallback_insert ans = Rejected)
           \<and> (present (case activeConversation s of None \<Rightarrow> None | Some c \<Rightarrow> c_title c) \<or> title_update ans \<noteq> Rejected)
        then (case get_session ans of
                Rejected \<Rightarrow> []
              | Resolved accessToken \<Rightarrow>
                  [(\<lparr>ib_messages = messagesForLLM s (userMessageContent (send_text s) (attachments s)),
                     ib_model = selectedModel s, ib_enableWeb = enableWeb s\<rparr>,
                    if present accessToken then Some (lit ''Bearer '' @ the accessToken) else None)])
        else [])"
  by (cases "ignored s"; cases "get_session ans")
     (simp_all add: handleSend_ignored handleSend_trace send_body_invocations)

lemma handleSend_alerts:
  "alerts (trace (handleSend ans s)) =
     (if ignored s
         \<or> (conversationId ans s \<noteq> None
            \<and> \<not> (first_insert_failed ans \<and> attachments s \<noteq> [] \<and> fallback_insert ans = Rejected)
            \<and> (present (case activeConversation s of None \<Rightarrow> None | Some c \<Rightarrow> c_title c) \<or> title_update ans \<noteq> Rejected)
            \<and> assistantText ans \<noteq> None
            \<and> (assistantText ans = Some [] \<or> assistant_insert ans \<noteq> Rejected))
      then [] else [lit ''Failed to send message''])"
  by (cases "ignored s") (simp_all add: handleSend_ignored handleSend_trace send_body_alerts send_body_fst)

lemma demo_failed_facts:
  "first_insert_failed demo_failed_answers"
  "conversationId demo_failed_answers s = conversationId demo_answers s"
  "assistantText demo_failed_answers = Some (lit ''Hi there'')"
  "title_update demo_failed_answers = Resolved ()"
  "get_session demo_failed_answers = Resolved (Some (lit ''token''))"
  "assistant_insert demo_failed_answers = Resolved (Some demo_assistant_row)"
  "fallback_insert demo_failed_answers = Resolved None"
  by (simp_all add: demo_failed_answers_def demo_answers_def first_insert_failed_def conversationId_def
      assistantText_def)

lemma demo_prompt:
  "messagesForLLM demo_client (userMessageContent (lit ''Hello'') []) =
     [\<lparr>l_role = User, l_content = TextContent (lit ''Hello'')\<rparr>]"
proof -
  have "lit ''Hello'' \<noteq> []" by (simp add: lit_def)
  then show ?thesis
    by (simp add: messagesForLLM_def userMessageContent_def demo_facts) (simp add: demo_client_def)
qed

lemma image_png_type:
  "lit ''image/png'' \<noteq> []" "startsWith (lit ''image/png'') (lit ''image/'')"
  by (simp_all add: startsWith_def lit_def)

lemma demo_photo_attachment:
  "a_textContent (to_attachment demo_photo) = Some (lit ''INVOICE'')"
  "a_dataUrl (to_attachment demo_photo) = Some (lit ''data:image/png;base64,AAAA'')"
  "a_type (to_attachment demo_photo) = lit ''image/png''"
  "a_textContent (to_attachment demo_plain_photo) = None"
  "a_dataUrl (to_attachment demo_plain_photo) = Some (lit ''data:image/png;base64,AAAA'')"
  "a_type (to_attachment demo_plain_photo) = lit ''image/png''"
  "lit ''INVOICE'' \<noteq> []" "lit ''data:image/png;base64,AAAA'' \<noteq> []"
  by (simp_all add: to_attachment_def demo_photo_def demo_plain_photo_def Let_def image_png_type)
     (simp_all add: lit_def)

lemma reveal_8: "reveal 8 0 = [1, 2, 3, 4, 5, 6, 7, 8]"
  by (simp add: reveal.simps[of 8])

section \<open>The claims\<close>






text \<open>
  Claim C3. The claim fails on the code. In the fresh session, the first send creates the
  conversation \<open>c-1\<close> and sets its title to \<open>Hello\<close>, in the store only: the entry that
  \<open>ensureConversation\<close> put into the client's list keeps the title \<open>null\<close>. Line 366 tests
  that entry, so the next send, \<open>World\<close>, in the same conversation updates the title
  again, and the store's title \<open>Hello\<close> becomes \<open>World\<close>.
\<close>

theorem title_overwritten_on_second_send:
  "title_updates (trace (handleSend demo_answers demo_client)) = [(lit ''c-1'', lit ''Hello'')]
   \<and> stored_title (lit ''c-1'') None (trace (handleSend demo_answers demo_client)) = Some (lit ''Hello'')
   \<and> title_updates (trace (handleSend demo_answers
          ((cur (handleSend demo_answers demo_client))\<lparr>input := lit ''World''\<rparr>)))
       = [(lit ''c-1'', lit ''World'')]
   \<and> stored_title (lit ''c-1'') (Some (lit ''Hello''))
        (trace (handleSend demo_answers ((cur (handleSend demo_answers demo_client))\<lparr>input := lit ''World''\<rparr>)))
       = Some (lit ''World'')"
proof -
  note t1 = demo_title_updates
  define s2 where "s2 = (cur (handleSend demo_answers demo_client))\<lparr>input := lit ''World''\<rparr>"
  obtain ms where c: "cur (snd (send_body demo_answers demo_client (send_text demo_client)
                                  \<lparr>cur = demo_client\<lparr>sending := True\<rparr>, trace = []\<rparr>)) =
     (cur (snd (ensureConversation demo_answers demo_client \<lparr>cur = demo_client\<lparr>sending := True\<rparr>, trace = []\<rparr>)))
       \<lparr>input := [],
        pendingQuery := (if present (pendingQuery demo_client) then None
                         else pendingQuery (cur (snd (ensureConversation demo_answers demo_client
                                \<lparr>cur = demo_client\<lparr>sending := True\<rparr>, trace = []\<rparr>)))),
        messages := ms\<rparr>"
    using send_body_cur[of demo_answers demo_client] demo_facts(3) by auto
  have s2: "s2 = \<lparr>userId = Some (lit ''user-1''),
                  conversations = [\<lparr>c_id = lit ''c-1'', c_user_id = Some (lit ''user-1''), c_title = None,
                                    c_created_at = lit ''09:00:00'', c_updated_at = lit ''09:00:00''\<rparr>],
                  activeId = Some (lit ''c-1''), messages = ms, input = lit ''World'', sending = False,
                  pendingQuery = None, attachments = [],
                  selectedModel = lit ''openai/gpt-oss-20b:free'', enableWeb = False\<rparr>"
    unfolding s2_def handleSend_cur[OF demo_facts(2)] c ensureConversation_cur demo_facts(3)
    by (simp add: demo_client_def demo_answers_def)
  have f2: "send_text s2 = lit ''World''" "\<not> ignored s2" "conversationId demo_answers s2 = Some (lit ''c-1'')"
    "(case activeConversation s2 of None \<Rightarrow> None | Some c \<Rightarrow> c_title c) = None" "attachments s2 = []"
    unfolding s2
    by (simp_all add: send_text_def ignored_def conversationId_def activeConversation_def trim_World)
       (simp_all add: lit_def)
  have t2: "title_updates (trace (handleSend demo_answers s2)) = [(lit ''c-1'', lit ''World'')]"
    by (simp add: handleSend_title_updates f2 demo_facts userMessageContent_def summarized_def)
       (simp add: lit_def)
  show ?thesis
    unfolding s2_def[symmetric]
    by (simp add: t1 t2 stored_title_updates)
qed








text \<open>
  Claim C7, as stated, fails on the code: a candidate of 61 code units is cut to its first
  57, not its first 60, before the ellipsis is appended, and the title has 58 code units.
\<close>

theorem title_summary_counterexample:
  "summarized (replicate 61 97) = replicate 57 97 @ ellipsis
   \<and> summarized (replicate 61 97) \<noteq> take 60 (replicate 61 97) @ ellipsis
   \<and> length (summarized (replicate 61 97)) = 58"
  by (simp add: summarized_def ellipsis_def)

text \<open>
  Claim C7, amended. The title written by a send is the user-message content unchanged
  when it has at most 60 code units; otherwise it is the first 57 code units of the
  content followed by the one-character ellipsis, 58 code units in all. The ellipsis is
  appended if and only if the content has more than 60 code units.
\<close>

theorem title_summary:
  "summarized c = (if length c \<le> 60 then c else take 57 c @ ellipsis)
   \<and> (60 < length c \<longrightarrow> length (summarized c) = 58)
   \<and> (\<forall>u \<in> set (title_updates (trace (handleSend ans s))).
         snd u = summarized (userMessageContent (send_text s) (attachments s)))"
proof -
  have a: "summarized c = (if length c \<le> 60 then c else take 57 c @ ellipsis)"
    by (simp add: summarized_def)
  have b: "60 < length c \<longrightarrow> length (summarized c) = 58"
    by (simp add: summarized_def ellipsis_def)
  have c: "\<forall>u \<in> set (title_updates (trace (handleSend ans s))).
         snd u = summarized (userMessageContent (send_text s) (attachments s))"
  proof (cases "ignored s")
    case True
    then show ?thesis by (simp add: handleSend_ignored)
  next
    case False
    then show ?thesis by (simp add: handleSend_trace send_body_title_updates)
  qed
  from a b c show ?thesis by blast
qed

theorem title_summary_witness:
  "length (summarized (replicate 61 97)) = 58
   \<and> list_all (\<lambda>u. snd u = lit ''Hello'') (title_updates (trace (handleSend demo_answers demo_client)))
   \<and> length (title_updates (trace (handleSend demo_answers demo_client))) = 1"
proof -
  note t = title_summary[of "replicate 61 97" demo_answers demo_client]
  have "60 < length (replicate 61 (97::nat))" by simp
  with t have a: "length (summarized (replicate 61 97)) = 58" by blast
  have e: "summarized (userMessageContent (send_text demo_client) (attachments demo_client)) = lit ''Hello''"
    by (simp add: demo_facts userMessageContent_def summarized_def) (simp add: lit_def)
  from t have "\<forall>u \<in> set (title_updates (trace (handleSend demo_answers demo_client))).
         snd u = summarized (userMessageContent (send_text demo_client) (attachments demo_client))"
    by blast
  then have b: "list_all (\<lambda>u. snd u = lit ''Hello'') (title_updates (trace (handleSend demo_answers demo_client)))"
    by (simp add: list_all_iff e)
  have c: "length (title_updates (trace (handleSend demo_answers demo_client))) = 1"
    by (simp add: demo_title_updates)
  from a b c show ?thesis by blast
qed



text \<open>
  Claim C9. In a send with attachments, the request is the prior messages, one user
  message with the combined text, and, only if some image was collected, one more user
  message with the image parts. The images collected are those of the attachments that
  have no (non-empty) extracted text, an image type and an image payload, in order.
  Every attachment with extracted text has its section \<open>--- File: name ---\<close> with the
  text (cut to 20000 code units) in the combined text. An image file whose recognition
  gave text becomes an attachment with that text, so it is inlined and its payload is
  not among the images.
\<close>

theorem image_units_only_without_text:
  assumes "attachments s \<noteq> []"
    and "c0 = (if content \<noteq> [] then content else lit ''(no text, files attached)'')
               @ newline @ newline @ lit ''[Attached files provided as inline text below]''"
  shows "messagesForLLM s content =
           map (\<lambda>m. \<lparr>l_role = m_role m, l_content = TextContent (m_content m)\<rparr>) (messages s)
           @ [\<lparr>l_role = User, l_content = TextContent (fst (combine (attachments s) c0 []))\<rparr>]
           @ (if snd (combine (attachments s) c0 []) = [] then []
              else [\<lparr>l_role = User, l_content = ImageParts (map fst (snd (combine (attachments s) c0 [])))\<rparr>])
       \<and> map fst (snd (combine (attachments s) c0 [])) =
           map (\<lambda>a. the (a_dataUrl a))
             (filter (\<lambda>a. \<not> present (a_textContent a) \<and> startsWith (a_type a) (lit ''image/'')
                           \<and> present (a_dataUrl a)) (attachments s))
       \<and> (\<forall>a \<in> set (attachments s). present (a_textContent a) \<longrightarrow>
             (\<exists>x y. fst (combine (attachments s) c0 []) =
                      x @ newline @ newline @ lit ''--- File: '' @ a_name a @ lit '' ---'' @ newline
                        @ take 20000 (the (a_textContent a)) @ y))
       \<and> (\<forall>(f::picked_file) url. startsWith (if f_type f \<noteq> [] then f_type f else lit ''application/octet-stream'') (lit ''image/'')
               \<and> f_dataURL f = Some url \<and> f_ocr f \<noteq> [] \<longrightarrow>
             a_textContent (to_attachment f) = Some (f_ocr f) \<and> present (a_textContent (to_attachment f)))"
proof (intro conjI ballI allI impI)
  show "messagesForLLM s content =
           map (\<lambda>m. \<lparr>l_role = m_role m, l_content = TextContent (m_content m)\<rparr>) (messages s)
           @ [\<lparr>l_role = User, l_content = TextContent (fst (combine (attachments s) c0 []))\<rparr>]
           @ (if snd (combine (attachments s) c0 []) = [] then []
              else [\<lparr>l_role = User, l_content = ImageParts (map fst (snd (combine (attachments s) c0 [])))\<rparr>])"
    using assms(1) unfolding messagesForLLM_def assms(2)
    by (simp add: split_beta)
next
  show "map fst (snd (combine (attachments s) c0 [])) =
           map (\<lambda>a. the (a_dataUrl a))
             (filter (\<lambda>a. \<not> present (a_textContent a) \<and> startsWith (a_type a) (lit ''image/'')
                           \<and> present (a_dataUrl a)) (attachments s))"
    by (simp add: combine_eq comp_def)
next
  fix a
  assume "a \<in> set (attachments s)" and "present (a_textContent a)"
  from combine_section[OF this, of c0 "[]"]
  show "\<exists>x y. fst (combine (attachments s) c0 []) =
                      x @ newline @ newline @ lit ''--- File: '' @ a_name a @ lit '' ---'' @ newline
                        @ take 20000 (the (a_textContent a)) @ y"
    by (simp add: text_section_def)
next
  fix f :: picked_file and url
  assume h: "startsWith (if f_type f \<noteq> [] then f_type f else lit ''application/octet-stream'') (lit ''image/'')
               \<and> f_dataURL f = Some url \<and> f_ocr f \<noteq> []"
  then show "a_textContent (to_attachment f) = Some (f_ocr f)"
    by (simp add: to_attachment_def Let_def)
  then show "present (a_textContent (to_attachment f))" using h by simp
qed

theorem image_units_only_without_text_witness:
  "attachments (demo_with demo_photo) \<noteq> []
   \<and> messagesForLLM (demo_with demo_photo) [] =
       [\<lparr>l_role = User, l_content = TextContent
           (lit ''(no text, files attached)'' @ newline @ newline
            @ lit ''[Attached files provided as inline text below]''
            @ newline @ newline @ lit ''--- File: scan.png ---'' @ newline @ lit ''INVOICE'')\<rparr>]
   \<and> messagesForLLM (demo_with demo_plain_photo) [] =
       [\<lparr>l_role = User, l_content = TextContent
           (lit ''(no text, files attached)'' @ newline @ newline
            @ lit ''[Attached files provided as inline text below]'')\<rparr>,
        \<lparr>l_role = User, l_content = ImageParts [lit ''data:image/png;base64,AAAA'']\<rparr>]"
proof -
  define c0 where "c0 = (if ([]::jsstring) \<noteq> [] then [] else lit ''(no text, files attached)'')
               @ newline @ newline @ lit ''[Attached files provided as inline text below]''"
  have a1: "attachments (demo_with demo_photo) = [to_attachment demo_photo]"
    and a2: "attachments (demo_with demo_plain_photo) = [to_attachment demo_plain_photo]"
    and m: "messages (demo_with demo_photo) = []" "messages (demo_with demo_plain_photo) = []"
    by (simp_all add: demo_with_def demo_client_def)
  have n1: "attachments (demo_with demo_photo) \<noteq> []" and n2: "attachments (demo_with demo_plain_photo) \<noteq> []"
    by (simp_all add: a1 a2)
  have nm: "a_name (to_attachment demo_photo) = lit ''scan.png''"
    by (simp add: to_attachment_def demo_photo_def Let_def image_png_type split: option.splits)
  from image_units_only_without_text[OF n1 c0_def]
  have r1: "messagesForLLM (demo_with demo_photo) [] =
       [\<lparr>l_role = User, l_content = TextContent (c0 @ text_section (to_attachment demo_photo))\<rparr>]"
    by (simp add: a1 m demo_photo_attachment image_png_type)
  from image_units_only_without_text[OF n2 c0_def]
  have r2: "messagesForLLM (demo_with demo_plain_photo) [] =
       [\<lparr>l_role = User, l_content = TextContent c0\<rparr>,
        \<lparr>l_role = User, l_content = ImageParts [lit ''data:image/png;base64,AAAA'']\<rparr>]"
    by (simp add: a2 m demo_photo_attachment image_png_type)
  have t: "text_section (to_attachment demo_photo) =
      newline @ newline @ lit ''--- File: scan.png ---'' @ newline @ lit ''INVOICE''"
    by (simp add: text_section_def demo_photo_attachment nm) (simp add: lit_def)
  show ?thesis
    using n1 r1 r2 by (simp add: t c0_def)
qed

text \<open>
  Claim C10. When the gateway answers with empty content (the empty string, or no
  content at all), the send issues no insert of an assistant message; the only update of
  the message list is the append of the user row the store returned, so no placeholder
  is ever shown; and the message list after the send is the list before it plus that row.
\<close>

theorem empty_reply_no_assistant_message:
  assumes "assistantText ans = Some []"
  shows "inserts_of Assistant (trace (handleSend ans s)) = []
       \<and> views (trace (handleSend ans s)) =
           (if \<not> ignored s \<and> conversationId ans s \<noteq> None
            then (case insertedUser ans (attachments s) of None \<Rightarrow> [] | Some row \<Rightarrow> [messages s @ [row]])
            else [])
       \<and> messages (cur (handleSend ans s)) =
           messages s @ (if \<not> ignored s \<and> conversationId ans s \<noteq> None
                         then (case insertedUser ans (attachments s) of None \<Rightarrow> [] | Some row \<Rightarrow> [row])
                         else [])"
proof (cases "ignored s")
  case True
  then show ?thesis by (simp add: handleSend_ignored)
next
  case False
  show ?thesis
    using assms False
    by (simp add: handleSend_trace[OF False] handleSend_messages[OF False]
        send_body_inserts_Assistant send_body_views_empty[OF assms] split: option.splits)
qed

theorem empty_reply_no_assistant_message_witness:
  "assistantText demo_empty_answers = Some []
   \<and> inserts_of Assistant (trace (handleSend demo_empty_answers demo_client)) = []
   \<and> views (trace (handleSend demo_empty_answers demo_client)) = [[demo_user_row]]
   \<and> messages (cur (handleSend demo_empty_answers demo_client)) = [demo_user_row]"
  using empty_reply_no_assistant_message[OF demo_empty_facts(1), of demo_client]
  by (simp add: demo_empty_facts demo_facts) (simp add: demo_client_def)

end
